theory Spec2Isabelle
  imports Main "HOL-Library.Word"
begin

unbundle bit_operations_syntax

section \<open>The edge-triggered epoll echo server (epollet.c)\<close>

text \<open>
  The program is a single C function \<open>main\<close> with one helper, \<open>set_nonblocking\<close>.
  Everything it does goes through system calls, so the model is a state record that holds
  the variables of \<open>main\<close> next to the part of the kernel the calls act on. The kernel's
  answers are not computed: each descriptor carries a script of what its successive
  \<open>read\<close> and \<open>write\<close> calls will find, the listening socket a script of what
  \<open>accept\<close> will return, and the failures of \<open>fcntl\<close> and \<open>epoll_ctl\<close> are sets of
  descriptors on which they fail. The events that \<open>epoll_wait\<close> reports are an input as
  well. A theorem quantified over the state and the events therefore holds for every
  behaviour of the kernel and of the peers.
\<close>

subsection \<open>Constants of the source and of the system headers\<close>

type_synonym byte = "8 word"

definition MAX_EVENTS :: nat where "MAX_EVENTS = 1024"
definition BUFFER_SIZE :: nat where "BUFFER_SIZE = 1024"

text \<open>Values of \<open><sys/epoll.h>\<close>, \<open><errno.h>\<close>, \<open><fcntl.h>\<close> and \<open><stdlib.h>\<close> on Linux,
  the only system that has epoll. There \<open>EWOULDBLOCK\<close> is the same number as \<open>EAGAIN\<close>.\<close>

definition EPOLLIN :: "32 word" where "EPOLLIN = 0x001"
definition EPOLLOUT :: "32 word" where "EPOLLOUT = 0x004"
definition EPOLLHUP :: "32 word" where "EPOLLHUP = 0x010"
definition EPOLLRDHUP :: "32 word" where "EPOLLRDHUP = 0x2000"
definition EPOLLET :: "32 word" where "EPOLLET = 0x80000000"

definition ENOENT :: int where "ENOENT = 2"
definition EBADF :: int where "EBADF = 9"
definition EAGAIN :: int where "EAGAIN = 11"
definition EWOULDBLOCK :: int where "EWOULDBLOCK = 11"
definition ENOMEM :: int where "ENOMEM = 12"
definition EEXIST :: int where "EEXIST = 17"
definition EPIPE :: int where "EPIPE = 32"

definition O_RDWR :: int where "O_RDWR = 2"
definition O_NONBLOCK :: int where "O_NONBLOCK = 2048"

definition EXIT_FAILURE :: int where "EXIT_FAILURE = 1"

text \<open>The number of the signal \<open>SIGPIPE\<close> (\<open><signal.h>\<close>).\<close>

definition SIGPIPE :: int where "SIGPIPE = 13"

subsection \<open>Data\<close>

text \<open>\<open>struct epoll_event\<close>: the event mask and the \<open>data.fd\<close> member of the union.\<close>

record epoll_event =
  events :: "32 word"
  data_fd :: int

text \<open>What one \<open>read\<close>, \<open>write\<close> or \<open>accept\<close> call finds. \<open>RData bs\<close>: the bytes \<open>bs\<close> are
  in the receive queue; \<open>REof\<close>: the peer has shut down; \<open>RErr e\<close>, \<open>WErr e\<close>, \<open>AccErr e\<close>:
  the call fails with errno \<open>e\<close> (\<open>EAGAIN\<close> included); \<open>WOk k\<close>: the send queue takes at
  most \<open>k\<close> bytes of this call; \<open>AccFd c\<close>: a connection is pending and gets descriptor
  \<open>c\<close>. An exhausted script means that nothing more will ever arrive or be taken.\<close>

datatype rd_res = RData "byte list" | REof | RErr int
datatype wr_res = WOk nat | WErr int
datatype acc_res = AccFd int | AccErr int

text \<open>Modelled from the spec: the type \<open>YourBuffer\<close> is used by the Writable branch of
  \<open>main\<close> (\<open>buf\<close>, \<open>sent_len\<close>, \<open>total_len\<close>) and declared nowhere in the repository. The
  spec's data model calls it \<open>pendingOutput\<close>: an ordered byte sequence not yet written to
  the peer, plus a cursor of bytes already sent.\<close>

record YourBuffer =
  buf :: "byte list"
  sent_len :: nat
  total_len :: nat

text \<open>The results of the set-up calls of \<open>main\<close>, fixed by the environment.\<close>

record boot =
  socket_ret :: int
  setsockopt_ret :: int
  bind_ret :: int
  listen_ret :: int
  epoll_create1_ret :: int

record state =
  \<comment> \<open>variables of \<open>main\<close>\<close>
  listen_fd :: int
  epoll_fd :: int
  event :: epoll_event
  \<comment> \<open>the process: errno, what \<open>perror\<close> and \<open>fprintf(stderr, ...)\<close> have printed, the
     pending-output table behind \<open>get_pending_data\<close>\<close>
  errno :: int
  stderr :: "string list"
  pending :: "int \<rightharpoonup> YourBuffer"
  \<comment> \<open>the kernel: open descriptors, their file status flags, the interest list of the
     epoll instance, the bytes each socket has taken from \<open>write\<close>\<close>
  open_fds :: "int set"
  fl :: "int \<Rightarrow> int"
  interest :: "int \<rightharpoonup> epoll_event"
  wire :: "int \<Rightarrow> byte list"
  \<comment> \<open>the environment: scripts and failures\<close>
  rd_script :: "int \<Rightarrow> rd_res list"
  wr_script :: "int \<Rightarrow> wr_res list"
  backlog :: "acc_res list"
  getfl_fail :: "int set"
  setfl_fail :: "int set"
  ctl_fail :: "int set"
  boot_env :: boot

text \<open>A call of the program returns, or the process exits with a status, or the process
  is blocked for ever inside a system call (on a descriptor in blocking mode whose script
  is exhausted, or in \<open>epoll_wait\<close> when no further events come), or the process is killed
  by a signal. The source installs no signal handler and ignores no signal, so every
  signal has its default action.\<close>

datatype syscall = SysAccept | SysRead | SysWrite | SysEpollWait

datatype 'a outcome = Ret 'a | Exit int state | Block syscall state | Kill int state

text \<open>What a \<open>write\<close> call does: it returns, or never returns, or raises a signal.\<close>

datatype 'a called = Returns 'a | Blocks | Raises int

subsection \<open>System calls\<close>

definition nonblocking :: "state \<Rightarrow> int \<Rightarrow> bool" where
  "nonblocking s fd = (fl s fd AND O_NONBLOCK \<noteq> 0)"

definition perror :: "state \<Rightarrow> string \<Rightarrow> state" where
  "perror s msg = s\<lparr>stderr := stderr s @ [msg]\<rparr>"

text \<open>\<open>close\<close>: the descriptor leaves the open set and, as Linux does when the last
  descriptor of a socket is closed, the interest list of the epoll instance. The source
  never duplicates a descriptor.\<close>

definition sys_close :: "state \<Rightarrow> int \<Rightarrow> state" where
  "sys_close s fd =
     (if fd \<in> open_fds s
      then s\<lparr>open_fds := open_fds s - {fd}, interest := (interest s)(fd := None)\<rparr>
      else s\<lparr>errno := EBADF\<rparr>)"

text \<open>\<open>read(fd, p, cnt)\<close>: the return value, the bytes copied to \<open>p\<close>, the new state;
  \<open>None\<close> when the call never returns.\<close>

definition sys_read :: "state \<Rightarrow> int \<Rightarrow> nat \<Rightarrow> (int \<times> byte list \<times> state) option" where
  "sys_read s fd cnt =
     (if fd \<notin> open_fds s then Some (- 1, [], s\<lparr>errno := EBADF\<rparr>)
      else case rd_script s fd of
        [] \<Rightarrow> if nonblocking s fd then Some (- 1, [], s\<lparr>errno := EAGAIN\<rparr>) else None
      | RErr e # rest \<Rightarrow>
          Some (- 1, [], s\<lparr>errno := e, rd_script := (rd_script s)(fd := rest)\<rparr>)
      | REof # rest \<Rightarrow> Some (0, [], s)
      | RData bs # rest \<Rightarrow>
          if length bs \<le> cnt
          then Some (int (length bs), bs, s\<lparr>rd_script := (rd_script s)(fd := rest)\<rparr>)
          else Some (int cnt, take cnt bs,
                     s\<lparr>rd_script := (rd_script s)(fd := RData (drop cnt bs) # rest)\<rparr>))"

text \<open>\<open>write(fd, p, cnt)\<close> with \<open>bs\<close> the \<open>cnt\<close> bytes at \<open>p\<close>. The source calls plain
  \<open>write\<close> on a socket: a write that fails with \<open>EPIPE\<close> (the peer has closed or reset the
  connection) raises \<open>SIGPIPE\<close>.\<close>

definition sys_write :: "state \<Rightarrow> int \<Rightarrow> byte list \<Rightarrow> (int \<times> state) called" where
  "sys_write s fd bs =
     (if fd \<notin> open_fds s then Returns (- 1, s\<lparr>errno := EBADF\<rparr>)
      else if bs = [] then Returns (0, s)
      else case wr_script s fd of
        [] \<Rightarrow> if nonblocking s fd then Returns (- 1, s\<lparr>errno := EAGAIN\<rparr>) else Blocks
      | WErr e # rest \<Rightarrow>
          if e = EPIPE then Raises SIGPIPE
          else Returns (- 1, s\<lparr>errno := e, wr_script := (wr_script s)(fd := rest)\<rparr>)
      | WOk k # rest \<Rightarrow>
          Returns (int (min k (length bs)),
                   s\<lparr>wire := (wire s)(fd := wire s fd @ take k bs),
                     wr_script := (wr_script s)(fd := rest)\<rparr>))"

definition sys_accept :: "state \<Rightarrow> int \<Rightarrow> (int \<times> state) option" where
  "sys_accept s lfd =
     (if lfd \<notin> open_fds s then Some (- 1, s\<lparr>errno := EBADF\<rparr>)
      else case backlog s of
        [] \<Rightarrow> if nonblocking s lfd then Some (- 1, s\<lparr>errno := EAGAIN\<rparr>) else None
      | AccErr e # rest \<Rightarrow> Some (- 1, s\<lparr>errno := e, backlog := rest\<rparr>)
      | AccFd c # rest \<Rightarrow>
          Some (c, s\<lparr>backlog := rest, open_fds := insert c (open_fds s),
                     fl := (fl s)(c := O_RDWR)\<rparr>))"

text \<open>\<open>fcntl(fd, F_GETFL, 0)\<close> and \<open>fcntl(fd, F_SETFL, flags)\<close>.\<close>

definition fcntl_getfl :: "state \<Rightarrow> int \<Rightarrow> int \<times> state" where
  "fcntl_getfl s fd =
     (if fd \<notin> open_fds s then (- 1, s\<lparr>errno := EBADF\<rparr>)
      else if fd \<in> getfl_fail s then (- 1, s\<lparr>errno := ENOMEM\<rparr>)
      else (fl s fd, s))"

definition fcntl_setfl :: "state \<Rightarrow> int \<Rightarrow> int \<Rightarrow> int \<times> state" where
  "fcntl_setfl s fd flags =
     (if fd \<notin> open_fds s then (- 1, s\<lparr>errno := EBADF\<rparr>)
      else if fd \<in> setfl_fail s then (- 1, s\<lparr>errno := ENOMEM\<rparr>)
      else (0, s\<lparr>fl := (fl s)(fd := flags)\<rparr>))"

text \<open>\<open>epoll_ctl(epfd, op, fd, &ev)\<close> on the one epoll instance of the program. The source
  uses the operations ADD and MOD only.\<close>

datatype ctl_op = EPOLL_CTL_ADD | EPOLL_CTL_MOD

definition epoll_ctl :: "state \<Rightarrow> int \<Rightarrow> ctl_op \<Rightarrow> int \<Rightarrow> epoll_event \<Rightarrow> int \<times> state" where
  "epoll_ctl s epfd op fd ev =
     (if \<not> (epfd \<in> open_fds s \<and> fd \<in> open_fds s) then (- 1, s\<lparr>errno := EBADF\<rparr>)
      else if fd \<in> ctl_fail s then (- 1, s\<lparr>errno := ENOMEM\<rparr>)
      else case op of
        EPOLL_CTL_ADD \<Rightarrow>
          (case interest s fd of
             Some old \<Rightarrow> (- 1, s\<lparr>errno := EEXIST\<rparr>)
           | None \<Rightarrow> (0, s\<lparr>interest := (interest s)(fd \<mapsto> ev)\<rparr>))
      | EPOLL_CTL_MOD \<Rightarrow>
          (case interest s fd of
             None \<Rightarrow> (- 1, s\<lparr>errno := ENOENT\<rparr>)
           | Some old \<Rightarrow> (0, s\<lparr>interest := (interest s)(fd \<mapsto> ev)\<rparr>)))"

text \<open>Modelled from the spec: \<open>get_pending_data\<close> is called by the Writable branch of
  \<open>main\<close> and defined nowhere in the repository. The spec keeps the pending output per
  connection, "empty when no backlog". Nothing in the source stores pending output.\<close>

definition get_pending_data :: "state \<Rightarrow> int \<Rightarrow> YourBuffer" where
  "get_pending_data s fd =
     (case pending s fd of
        Some pd \<Rightarrow> pd
      | None \<Rightarrow> \<lparr>buf = [], sent_len = 0, total_len = 0\<rparr>)"

text \<open>Modelled from the spec: \<open>free_pending_data\<close>, called by the Writable branch and
  defined nowhere in the repository, clears the pending output of the connection.\<close>

definition free_pending_data :: "state \<Rightarrow> int \<Rightarrow> state" where
  "free_pending_data s fd = s\<lparr>pending := (pending s)(fd := None)\<rparr>"

subsection \<open>The program\<close>

text \<open>\<open>set_nonblocking\<close> (lines 17 to 30): either \<open>fcntl\<close> failing ends the process with
  \<open>exit(EXIT_FAILURE)\<close>.\<close>

definition set_nonblocking :: "state \<Rightarrow> int \<Rightarrow> state outcome" where
  "set_nonblocking s fd =
     (case fcntl_getfl s fd of (flags, s1) \<Rightarrow>
        if flags = - 1 then Exit EXIT_FAILURE (perror s1 ''fcntl F_GETFL'')
        else (case fcntl_setfl s1 fd (flags OR O_NONBLOCK) of (r, s2) \<Rightarrow>
          if r = - 1 then Exit EXIT_FAILURE (perror s2 ''fcntl F_SETFL'')
          else Ret s2))"

lemma sys_write_consumes:
  "sys_write s fd bs = Returns (sent, s1) \<Longrightarrow> sent \<noteq> - 1 \<Longrightarrow> bs \<noteq> [] \<Longrightarrow>
   length (wr_script s1 fd) < length (wr_script s fd)"
  by (auto simp: sys_write_def split: if_splits list.splits wr_res.splits)

text \<open>The echo loop (lines 205 to 232). \<open>buffer\<close> is the filled part of the array
  \<open>buffer\<close>, so that \<open>total_read\<close> is its length; \<open>write\<close> is given the bytes from
  \<open>buffer + total_sent\<close> on. The \<open>printf\<close> calls of the program are left out.\<close>

function echo_loop :: "state \<Rightarrow> int \<Rightarrow> byte list \<Rightarrow> nat \<Rightarrow> state outcome" where
  "echo_loop s fd buffer total_sent =
     (if total_sent < length buffer then
        (case sys_write s fd (drop total_sent buffer) of
           Blocks \<Rightarrow> Block SysWrite s
         | Raises sig \<Rightarrow> Kill sig s
         | Returns (sent, s1) \<Rightarrow>
             if sent = - 1 then
               (if errno s1 = EAGAIN \<or> errno s1 = EWOULDBLOCK then
                  (let s2 = s1\<lparr>event := \<lparr>events = EPOLLOUT OR EPOLLET OR EPOLLRDHUP,
                                         data_fd = fd\<rparr>\<rparr>;
                       r = epoll_ctl s2 (epoll_fd s2) EPOLL_CTL_MOD fd (event s2)
                   in if fst r = - 1
                      then Ret (sys_close (perror (snd r) ''epoll_ctl EPOLL_CTL_MOD'') fd)
                      else Ret (snd r))
                else Ret (sys_close (perror s1 ''write'') fd))
             else echo_loop s1 fd buffer (total_sent + nat sent))
      else Ret s)"
  by pat_completeness auto
termination
  by (relation "measure (\<lambda>(s, fd, buffer, total_sent). length (wr_script s fd))")
     (auto dest: sys_write_consumes)

lemma sys_read_bound:
  "sys_read s fd cnt = Some (n, bs, s1) \<Longrightarrow> 0 < n \<Longrightarrow> 0 < length bs \<and> length bs \<le> cnt"
  by (auto simp: sys_read_def split: if_splits list.splits rd_res.splits)

text \<open>The read loop of the Readable branch (lines 170 to 242), from \<open>total_read = 0\<close>.\<close>

function read_loop :: "state \<Rightarrow> int \<Rightarrow> byte list \<Rightarrow> state outcome" where
  "read_loop s fd buffer =
     (case sys_read s fd (BUFFER_SIZE - length buffer) of
        None \<Rightarrow> Block SysRead s
      | Some (n, bs, s1) \<Rightarrow>
          if n > 0 then
            (if length (buffer @ bs) = BUFFER_SIZE then Ret s1
             else read_loop s1 fd (buffer @ bs))
          else if n = 0 then Ret (sys_close s1 fd)
          else if errno s1 = EAGAIN \<or> errno s1 = EWOULDBLOCK then
            (if length buffer > 0 then echo_loop s1 fd buffer 0 else Ret s1)
          else Ret (sys_close (perror s1 ''read'') fd))"
  by pat_completeness auto
termination
proof (relation "measure (\<lambda>(s, fd, buffer). BUFFER_SIZE - length buffer)", goal_cases)
  case 1
  show ?case by simp
next
  case (2 s fd buffer x2 n rest bs s1)
  then have "sys_read s fd (BUFFER_SIZE - length buffer) = Some (n, bs, s1)" and "0 < n"
    by simp_all
  then have "0 < length bs \<and> length bs \<le> BUFFER_SIZE - length buffer"
    by (rule sys_read_bound)
  then show ?case by (cases bs) auto
qed

text \<open>The Writable branch (lines 247 to 271): one \<open>write\<close> from the cursor of the pending
  data, which the pointer \<open>pending_data\<close> updates in place. The last \<open>epoll_ctl\<close> is given
  \<open>event\<close> with the \<open>data.fd\<close> it happens to hold, and its result is not looked at.\<close>

definition handle_writable :: "state \<Rightarrow> int \<Rightarrow> state outcome" where
  "handle_writable s fd =
     (let pending_data = get_pending_data s fd in
      case sys_write s fd (take (total_len pending_data - sent_len pending_data)
                                (drop (sent_len pending_data) (buf pending_data))) of
        Blocks \<Rightarrow> Block SysWrite s
      | Raises sig \<Rightarrow> Kill sig s
      | Returns (sent, s1) \<Rightarrow>
          if sent > 0 then
            (let pd = pending_data\<lparr>sent_len := sent_len pending_data + nat sent\<rparr>;
                 s2 = s1\<lparr>pending := (pending s1)(fd \<mapsto> pd)\<rparr>
             in if sent_len pd = total_len pd then
                  (let s3 = free_pending_data s2 fd;
                       s4 = s3\<lparr>event := (event s3)\<lparr>events := EPOLLIN OR EPOLLET OR EPOLLRDHUP\<rparr>\<rparr>
                   in Ret (snd (epoll_ctl s4 (epoll_fd s4) EPOLL_CTL_MOD fd (event s4))))
                else Ret s2)
          else if sent = - 1 \<and> errno s1 \<noteq> EAGAIN then
            Ret (free_pending_data (sys_close s1 fd) fd)
          else Ret s1)"

lemma sys_accept_consumes:
  "sys_accept s lfd = Some (c, s1) \<Longrightarrow> 0 < c \<Longrightarrow> length (backlog s1) < length (backlog s)"
  by (auto simp: sys_accept_def split: if_splits list.splits acc_res.splits)

lemma set_nonblocking_backlog:
  "set_nonblocking s fd = Ret s1 \<Longrightarrow> backlog s1 = backlog s"
  by (auto simp: set_nonblocking_def fcntl_getfl_def fcntl_setfl_def split: if_splits)

lemma epoll_ctl_backlog: "backlog (snd (epoll_ctl s ep op fd ev)) = backlog s"
  by (simp add: epoll_ctl_def split: ctl_op.splits option.splits)

lemma sys_close_backlog: "backlog (sys_close s fd) = backlog s"
  by (simp add: sys_close_def)

lemma perror_backlog: "backlog (perror s msg) = backlog s"
  by (simp add: perror_def)

text \<open>The accept loop (lines 125 to 145): it goes on while \<open>accept\<close> returns a positive
  descriptor and returns the last value of \<open>conn_fd\<close>.\<close>

function accept_loop :: "state \<Rightarrow> (int \<times> state) outcome" where
  "accept_loop s =
     (case sys_accept s (listen_fd s) of
        None \<Rightarrow> Block SysAccept s
      | Some (conn_fd, s1) \<Rightarrow>
          if conn_fd > 0 then
            (case set_nonblocking s1 conn_fd of
               Exit c sx \<Rightarrow> Exit c sx
             | Block b sx \<Rightarrow> Block b sx
             | Kill sig sx \<Rightarrow> Kill sig sx
             | Ret s2 \<Rightarrow>
                 (let s3 = s2\<lparr>event := \<lparr>events = EPOLLIN OR EPOLLET OR EPOLLRDHUP,
                                        data_fd = conn_fd\<rparr>\<rparr>;
                      r = epoll_ctl s3 (epoll_fd s3) EPOLL_CTL_ADD conn_fd (event s3)
                  in if fst r = - 1
                     then accept_loop
                            (sys_close (perror (snd r) ''epoll_ctl EPOLL_CTL_ADD'') conn_fd)
                     else accept_loop (snd r)))
          else Ret (conn_fd, s1))"
  by pat_completeness auto
termination
  by (relation "measure (\<lambda>s. length (backlog s))")
     (auto dest!: sys_accept_consumes set_nonblocking_backlog
           simp: sys_close_backlog perror_backlog epoll_ctl_backlog)

text \<open>After the accept loop (lines 147 to 154): a failure other than would-block is
  reported, and the branch is over either way.\<close>

definition accept_branch :: "state \<Rightarrow> state outcome" where
  "accept_branch s =
     (case accept_loop s of
        Exit c sx \<Rightarrow> Exit c sx
      | Block b sx \<Rightarrow> Block b sx
      | Kill sig sx \<Rightarrow> Kill sig sx
      | Ret (conn_fd, s1) \<Rightarrow>
          if conn_fd = - 1 then
            (if errno s1 \<noteq> EAGAIN \<and> errno s1 \<noteq> EWOULDBLOCK
             then Ret (perror s1 ''accept'') else Ret s1)
          else Ret s1)"

text \<open>The body of the \<open>for\<close> loop (lines 117 to 273) for the event \<open>events[i]\<close>.\<close>

definition handle_event :: "state \<Rightarrow> epoll_event \<Rightarrow> state outcome" where
  "handle_event s ev =
     (if data_fd ev = listen_fd s then accept_branch s
      else if events ev AND (EPOLLRDHUP OR EPOLLHUP) \<noteq> 0 then Ret (sys_close s (data_fd ev))
      else if events ev AND EPOLLIN \<noteq> 0 then read_loop s (data_fd ev) []
      else if events ev AND EPOLLOUT \<noteq> 0 then handle_writable s (data_fd ev)
      else Ret s)"

fun for_events :: "state \<Rightarrow> epoll_event list \<Rightarrow> state outcome" where
  "for_events s [] = Ret s"
| "for_events s (ev # evs) =
     (case handle_event s ev of
        Ret s1 \<Rightarrow> for_events s1 evs
      | Exit c sx \<Rightarrow> Exit c sx
      | Block b sx \<Rightarrow> Block b sx
      | Kill sig sx \<Rightarrow> Kill sig sx)"

text \<open>The event loop (lines 106 to 279) over the successive results of \<open>epoll_wait\<close>, which
  returns at most \<open>MAX_EVENTS\<close> events. A failure of \<open>epoll_wait\<close> leaves the loop; the two
  descriptors are closed and \<open>main\<close> returns 0. With no further result the process stays
  in \<open>epoll_wait\<close>.\<close>

datatype wait_res = WaitErr int | WaitOk "epoll_event list"

fun event_loop :: "state \<Rightarrow> wait_res list \<Rightarrow> state outcome" where
  "event_loop s [] = Block SysEpollWait s"
| "event_loop s (WaitErr e # ws) =
     (let s1 = perror (s\<lparr>errno := e\<rparr>) ''epoll_wait'';
          s2 = sys_close s1 (listen_fd s1);
          s3 = sys_close s2 (epoll_fd s2)
      in Exit 0 s3)"
| "event_loop s (WaitOk evs # ws) =
     (case for_events s (take MAX_EVENTS evs) of
        Ret s1 \<Rightarrow> event_loop s1 ws
      | Exit c sx \<Rightarrow> Exit c sx
      | Block b sx \<Rightarrow> Block b sx
      | Kill sig sx \<Rightarrow> Kill sig sx)"

text \<open>The set-up calls. \<open>socket\<close> and \<open>epoll_create1\<close> open the descriptor they return, in
  blocking mode; the errno of a failed set-up call is not kept, \<open>perror\<close> records its tag
  only.\<close>

definition sys_socket :: "state \<Rightarrow> int \<times> state" where
  "sys_socket s =
     (let r = socket_ret (boot_env s)
      in if r = - 1 then (- 1, s)
         else (r, s\<lparr>open_fds := insert r (open_fds s), fl := (fl s)(r := O_RDWR)\<rparr>))"

definition sys_epoll_create1 :: "state \<Rightarrow> int \<times> state" where
  "sys_epoll_create1 s =
     (let r = epoll_create1_ret (boot_env s)
      in if r = - 1 then (- 1, s)
         else (r, s\<lparr>open_fds := insert r (open_fds s), fl := (fl s)(r := O_RDWR)\<rparr>))"

text \<open>\<open>main\<close> (lines 32 to 280), in two parts: the set-up up to the registration of the
  listening socket, then the event loop. \<open>atoi(argv[1])\<close> only chooses the address that
  \<open>bind\<close> is given, so \<open>argv\<close> is left out.\<close>

definition startup :: "state \<Rightarrow> int \<Rightarrow> state outcome" where
  "startup s0 argc =
     (if argc \<noteq> 2 then Exit EXIT_FAILURE (s0\<lparr>stderr := stderr s0 @ [''Usage'']\<rparr>)
      else case sys_socket s0 of (lfd, sa) \<Rightarrow>
        let s1 = sa\<lparr>listen_fd := lfd\<rparr> in
        if listen_fd s1 = - 1 then Exit EXIT_FAILURE (perror s1 ''socket'')
        else if setsockopt_ret (boot_env s1) = - 1
          then Exit EXIT_FAILURE (sys_close (perror s1 ''setsockopt'') (listen_fd s1))
        else if bind_ret (boot_env s1) = - 1
          then Exit EXIT_FAILURE (sys_close (perror s1 ''bind'') (listen_fd s1))
        else if listen_ret (boot_env s1) = - 1
          then Exit EXIT_FAILURE (sys_close (perror s1 ''listen'') (listen_fd s1))
        else case sys_epoll_create1 s1 of (efd, sb) \<Rightarrow>
          let s2 = sb\<lparr>epoll_fd := efd\<rparr> in
          if epoll_fd s2 = - 1
            then Exit EXIT_FAILURE (sys_close (perror s2 ''epoll_create1'') (listen_fd s2))
          else
            let s3 = s2\<lparr>event := \<lparr>events = EPOLLIN OR EPOLLET, data_fd = listen_fd s2\<rparr>\<rparr>
            in case epoll_ctl s3 (epoll_fd s3) EPOLL_CTL_ADD (listen_fd s3) (event s3) of
                 (r, s4) \<Rightarrow>
                   if r = - 1
                   then Exit EXIT_FAILURE
                          (sys_close (sys_close (perror s4 ''epoll_ctl EPOLL_CTL_ADD'')
                                                (listen_fd s4)) (epoll_fd s4))
                   else Ret s4)"

definition main :: "state \<Rightarrow> int \<Rightarrow> wait_res list \<Rightarrow> state outcome" where
  "main s0 argc waits =
     (case startup s0 argc of
        Ret s \<Rightarrow> event_loop s waits
      | Exit c sx \<Rightarrow> Exit c sx
      | Block b sx \<Rightarrow> Block b sx
      | Kill sig sx \<Rightarrow> Kill sig sx)"

text \<open>Reading an outcome: the exit status if the process has exited, the signal if it
  was killed, the call it is blocked in, and the state the outcome carries.\<close>

fun exit_status :: "'a outcome \<Rightarrow> int option" where
  "exit_status (Exit c s) = Some c"
| "exit_status (Ret s) = None"
| "exit_status (Block b s) = None"
| "exit_status (Kill sig s) = None"

fun killed_by :: "'a outcome \<Rightarrow> int option" where
  "killed_by (Kill sig s) = Some sig"
| "killed_by (Ret s) = None"
| "killed_by (Exit c s) = None"
| "killed_by (Block b s) = None"

fun blocked_in :: "'a outcome \<Rightarrow> syscall option" where
  "blocked_in (Block b s) = Some b"
| "blocked_in (Ret s) = None"
| "blocked_in (Exit c s) = None"
| "blocked_in (Kill sig s) = None"

fun the_state :: "state outcome \<Rightarrow> state" where
  "the_state (Ret s) = s"
| "the_state (Exit c s) = s"
| "the_state (Block b s) = s"
| "the_state (Kill sig s) = s"

text \<open>The state at the end of the accept loop, whose value is the last \<open>conn_fd\<close> with
  the state.\<close>

fun loop_state :: "(int \<times> state) outcome \<Rightarrow> state" where
  "loop_state (Ret (c, s)) = s"
| "loop_state (Exit c s) = s"
| "loop_state (Block b s) = s"
| "loop_state (Kill sig s) = s"

subsection \<open>Named parts of the loops\<close>

text \<open>What the echo loop does once \<open>write\<close> has returned -1 (lines 210 to 229), and what the
  accept loop does with a connection once it is non-blocking (lines 137 to 144). The loops
  above are equal to their unfoldings in terms of these, which the proofs use.\<close>

definition echo_failed :: "state \<Rightarrow> int \<Rightarrow> state" where
  "echo_failed s1 fd =
     (if errno s1 = EAGAIN \<or> errno s1 = EWOULDBLOCK then
        (let s2 = s1\<lparr>event := \<lparr>events = EPOLLOUT OR EPOLLET OR EPOLLRDHUP, data_fd = fd\<rparr>\<rparr>;
             r = epoll_ctl s2 (epoll_fd s2) EPOLL_CTL_MOD fd (event s2)
         in if fst r = - 1
            then sys_close (perror (snd r) ''epoll_ctl EPOLL_CTL_MOD'') fd
            else snd r)
      else sys_close (perror s1 ''write'') fd)"

definition accept_register :: "state \<Rightarrow> int \<Rightarrow> state" where
  "accept_register s2 conn_fd =
     (let s3 = s2\<lparr>event := \<lparr>events = EPOLLIN OR EPOLLET OR EPOLLRDHUP, data_fd = conn_fd\<rparr>\<rparr>;
          r = epoll_ctl s3 (epoll_fd s3) EPOLL_CTL_ADD conn_fd (event s3)
      in if fst r = - 1
         then sys_close (perror (snd r) ''epoll_ctl EPOLL_CTL_ADD'') conn_fd
         else snd r)"

text \<open>An accepted connection as the accept loop should leave it: open, non-blocking and
  registered for \<open>EPOLLIN | EPOLLET | EPOLLRDHUP\<close> under its own descriptor. A descriptor
  the kernel may hand out next, on which no call is set to fail. The state after one pass
  of the accept loop for a pending connection that gets descriptor \<open>c\<close>.\<close>

definition registered :: "state \<Rightarrow> int \<Rightarrow> bool" where
  "registered s c =
     (c \<in> open_fds s \<and> nonblocking s c
      \<and> interest s c = Some \<lparr>events = EPOLLIN OR EPOLLET OR EPOLLRDHUP, data_fd = c\<rparr>)"

definition fresh :: "state \<Rightarrow> int \<Rightarrow> bool" where
  "fresh s c =
     (0 < c \<and> c \<notin> open_fds s \<and> interest s c = None
      \<and> c \<notin> getfl_fail s \<and> c \<notin> setfl_fail s \<and> c \<notin> ctl_fail s)"

definition accepted :: "state \<Rightarrow> int \<Rightarrow> acc_res list \<Rightarrow> state" where
  "accepted s c rest =
     s\<lparr>backlog := rest, open_fds := insert c (open_fds s),
       fl := (fl s)(c := O_RDWR OR O_NONBLOCK),
       event := \<lparr>events = EPOLLIN OR EPOLLET OR EPOLLRDHUP, data_fd = c\<rparr>,
       interest := (interest s)(c \<mapsto> \<lparr>events = EPOLLIN OR EPOLLET OR EPOLLRDHUP, data_fd = c\<rparr>)\<rparr>"

text \<open>Handling an event of the connection \<open>fd\<close> has left every other descriptor as it
  was: open or closed, its flags, its registration, its pending output, the bytes written
  to it and what it will read and take; the backlog and the two descriptors of \<open>main\<close>
  are unchanged as well.\<close>

definition others_untouched :: "int \<Rightarrow> state \<Rightarrow> state \<Rightarrow> bool" where
  "others_untouched fd s s' =
     ((\<forall>x. x \<noteq> fd \<longrightarrow>
          (x \<in> open_fds s') = (x \<in> open_fds s) \<and> fl s' x = fl s x
        \<and> interest s' x = interest s x \<and> pending s' x = pending s x
        \<and> wire s' x = wire s x \<and> rd_script s' x = rd_script s x
        \<and> wr_script s' x = wr_script s x)
      \<and> backlog s' = backlog s \<and> listen_fd s' = listen_fd s \<and> epoll_fd s' = epoll_fd s)"

text \<open>Handling an event of the listening socket has left every descriptor as it was,
  except those of the connections that were pending: open or closed, its flags, its
  registration. The backlog has lost entries only, and the pending output, the bytes
  written, what the connections will read and take, the failures to come and the two
  descriptors of \<open>main\<close> are unchanged.\<close>

definition accept_untouched :: "state \<Rightarrow> state \<Rightarrow> bool" where
  "accept_untouched s s' =
     ((\<forall>x. AccFd x \<notin> set (backlog s) \<longrightarrow>
          (x \<in> open_fds s') = (x \<in> open_fds s) \<and> fl s' x = fl s x
        \<and> interest s' x = interest s x)
      \<and> (\<forall>r. r \<in> set (backlog s') \<longrightarrow> r \<in> set (backlog s))
      \<and> pending s' = pending s \<and> wire s' = wire s \<and> rd_script s' = rd_script s
      \<and> wr_script s' = wr_script s \<and> getfl_fail s' = getfl_fail s
      \<and> setfl_fail s' = setfl_fail s \<and> ctl_fail s' = ctl_fail s
      \<and> listen_fd s' = listen_fd s \<and> epoll_fd s' = epoll_fd s)"

text \<open>One pass of the accept loop after \<open>accept\<close> has returned the descriptor \<open>c\<close>: that
  descriptor changes and the backlog stays.\<close>

definition only_fd :: "int \<Rightarrow> state \<Rightarrow> state \<Rightarrow> bool" where
  "only_fd c s s' =
     ((\<forall>x. x \<noteq> c \<longrightarrow>
          (x \<in> open_fds s') = (x \<in> open_fds s) \<and> fl s' x = fl s x
        \<and> interest s' x = interest s x)
      \<and> backlog s' = backlog s
      \<and> pending s' = pending s \<and> wire s' = wire s \<and> rd_script s' = rd_script s
      \<and> wr_script s' = wr_script s \<and> getfl_fail s' = getfl_fail s
      \<and> setfl_fail s' = setfl_fail s \<and> ctl_fail s' = ctl_fail s
      \<and> listen_fd s' = listen_fd s \<and> epoll_fd s' = epoll_fd s)"


text \<open>What every step of the program keeps: the \<open>fcntl\<close> failures to come, the results
  of \<open>write\<close> to come (a script only gets shorter), and an empty entry of the pending
  table. \<open>within fd\<close> is what the handling of an event of the connection \<open>fd\<close> keeps.\<close>

definition kept :: "state \<Rightarrow> state \<Rightarrow> bool" where
  "kept s s' =
     (getfl_fail s' = getfl_fail s \<and> setfl_fail s' = setfl_fail s
      \<and> (\<forall>x e. e \<in> set (wr_script s' x) \<longrightarrow> e \<in> set (wr_script s x))
      \<and> (\<forall>x. pending s x = None \<longrightarrow> pending s' x = None))"

definition within :: "int \<Rightarrow> state \<Rightarrow> state \<Rightarrow> bool" where
  "within fd s s' = (others_untouched fd s s' \<and> kept s s')"

subsection \<open>States for examples\<close>

text \<open>A process before \<open>main\<close> starts: descriptors 0, 1 and 2 open, nothing registered, no
  pending output, the set-up calls succeeding with descriptors 3 and 4, every script
  empty and no call failing.\<close>

definition boot0 :: boot where
  "boot0 = \<lparr>socket_ret = 3, setsockopt_ret = 0, bind_ret = 0, listen_ret = 0,
            epoll_create1_ret = 4\<rparr>"

definition init0 :: state where
  "init0 = \<lparr>listen_fd = 0, epoll_fd = 0, event = \<lparr>events = 0, data_fd = 0\<rparr>,
            errno = 0, stderr = [], pending = Map.empty,
            open_fds = {0, 1, 2}, fl = (\<lambda>fd. O_RDWR), interest = Map.empty,
            wire = (\<lambda>fd. []),
            rd_script = (\<lambda>fd. []), wr_script = (\<lambda>fd. []), backlog = [],
            getfl_fail = {}, setfl_fail = {}, ctl_fail = {}, boot_env = boot0\<rparr>"

text \<open>The same process when the set-up of \<open>main\<close> is done: the listening socket 3 is
  registered with the epoll instance 4. The source never makes it non-blocking.\<close>

definition listening0 :: state where
  "listening0 = init0\<lparr>listen_fd := 3, epoll_fd := 4,
                  event := \<lparr>events = EPOLLIN OR EPOLLET, data_fd = 3\<rparr>,
                  open_fds := {0, 1, 2, 3, 4},
                  interest := [3 \<mapsto> \<lparr>events = EPOLLIN OR EPOLLET, data_fd = 3\<rparr>]\<rparr>"

text \<open>The server in its steady state with one accepted connection on descriptor 5, as
  the accept loop leaves it: non-blocking, registered for
  \<open>EPOLLIN | EPOLLET | EPOLLRDHUP\<close>. It is the state in which \<open>main\<close> waits for events
  after a first event on the listening socket, when one connection was pending and the
  next \<open>accept\<close> has failed with \<open>ECONNABORTED\<close> (lemma \<open>conn5_reached\<close> below). On a
  listening socket in blocking mode the accept loop ends in no other way than by an
  \<open>accept\<close> that fails.\<close>

definition ECONNABORTED :: int where "ECONNABORTED = 103"

definition conn5 :: state where
  "conn5 = listening0\<lparr>event := \<lparr>events = EPOLLIN OR EPOLLET OR EPOLLRDHUP, data_fd = 5\<rparr>,
             errno := ECONNABORTED, stderr := [''accept''],
             open_fds := {0, 1, 2, 3, 4, 5},
             fl := (\<lambda>fd. O_RDWR)(5 := O_RDWR OR O_NONBLOCK),
             interest := [3 \<mapsto> \<lparr>events = EPOLLIN OR EPOLLET, data_fd = 3\<rparr>,
                          5 \<mapsto> \<lparr>events = EPOLLIN OR EPOLLET OR EPOLLRDHUP, data_fd = 5\<rparr>]\<rparr>"

text \<open>A burst of 2000 bytes and a message of exactly \<open>BUFFER_SIZE\<close> bytes waiting on
  descriptor 5, whose send queue has room for 4096 bytes.\<close>

definition burst5 :: state where
  "burst5 = conn5\<lparr>rd_script := (\<lambda>fd. [])(5 := [RData (replicate 2000 65)]),
                   wr_script := (\<lambda>fd. [])(5 := [WOk 4096])\<rparr>"

definition full5 :: state where
  "full5 = conn5\<lparr>rd_script := (\<lambda>fd. [])(5 := [RData (replicate 1024 65)]),
                  wr_script := (\<lambda>fd. [])(5 := [WOk 4096])\<rparr>"

text \<open>Three bytes waiting on descriptor 5, whose send queue takes one byte and is then
  full.\<close>

definition part5 :: state where
  "part5 = conn5\<lparr>rd_script := (\<lambda>fd. [])(5 := [RData [1, 2, 3]]),
                  wr_script := (\<lambda>fd. [])(5 := [WOk 1])\<rparr>"

text \<open>Descriptor 5 draining three pending bytes; the send queue takes one byte on the
  next \<open>write\<close> and two on the one after.\<close>

definition drain5 :: state where
  "drain5 = conn5\<lparr>pending := [5 \<mapsto> \<lparr>buf = [1, 2, 3], sent_len = 0, total_len = 3\<rparr>],
               interest := (interest conn5)
                 (5 \<mapsto> \<lparr>events = EPOLLOUT OR EPOLLET OR EPOLLRDHUP, data_fd = 5\<rparr>),
               wr_script := (\<lambda>fd. [])(5 := [WOk 1, WOk 2])\<rparr>"

text \<open>Three bytes waiting on descriptor 5 and the peer has shut down its side.\<close>

definition hup5 :: state where
  "hup5 = conn5\<lparr>rd_script := (\<lambda>fd. [])(5 := [RData [1, 2, 3], REof]),
                 wr_script := (\<lambda>fd. [])(5 := [WOk 4096])\<rparr>"

text \<open>The server after two pending connections have been accepted on the descriptors 5
  and 6, set non-blocking and registered.\<close>

definition both56 :: state where
  "both56 = listening0\<lparr>event := \<lparr>events = EPOLLIN OR EPOLLET OR EPOLLRDHUP, data_fd = 6\<rparr>,
              open_fds := {0, 1, 2, 3, 4, 5, 6},
              fl := (\<lambda>fd. O_RDWR)(5 := O_RDWR OR O_NONBLOCK, 6 := O_RDWR OR O_NONBLOCK),
              interest := [3 \<mapsto> \<lparr>events = EPOLLIN OR EPOLLET, data_fd = 3\<rparr>,
                           5 \<mapsto> \<lparr>events = EPOLLIN OR EPOLLET OR EPOLLRDHUP, data_fd = 5\<rparr>,
                           6 \<mapsto> \<lparr>events = EPOLLIN OR EPOLLET OR EPOLLRDHUP, data_fd = 6\<rparr>]\<rparr>"


text \<open>A process in which much fails but no \<open>fcntl\<close> call and no \<open>write\<close> with \<open>EPIPE\<close>:
  the connection on descriptor 5 sends three bytes and its echo fails with \<open>ECONNRESET\<close>;
  \<open>accept\<close> fails with \<open>ECONNABORTED\<close> after the first connection and with \<open>EMFILE\<close>
  after the second, whose registration with the epoll instance fails. \<open>trouble0\<close> is the
  process before \<open>main\<close> starts, \<open>trouble5\<close> the state in which \<open>main\<close> waits for events
  after the first event on the listening socket.\<close>

definition trouble0 :: state where
  "trouble0 = init0\<lparr>backlog := [AccFd 5, AccErr ECONNABORTED, AccFd 6, AccErr 24],
                 ctl_fail := {6},
                 rd_script := (\<lambda>fd. [])(5 := [RData [1, 2, 3]]),
                 wr_script := (\<lambda>fd. [])(5 := [WErr 104])\<rparr>"

definition trouble5 :: state where
  "trouble5 = conn5\<lparr>backlog := [AccFd 6, AccErr 24], ctl_fail := {6},
                 rd_script := (\<lambda>fd. [])(5 := [RData [1, 2, 3]]),
                 wr_script := (\<lambda>fd. [])(5 := [WErr 104])\<rparr>"

section \<open>Properties\<close>

lemmas header_defs = EPOLLIN_def EPOLLOUT_def EPOLLHUP_def EPOLLRDHUP_def EPOLLET_def
  ENOENT_def EBADF_def EAGAIN_def EWOULDBLOCK_def ENOMEM_def EEXIST_def O_RDWR_def
  O_NONBLOCK_def EXIT_FAILURE_def BUFFER_SIZE_def MAX_EVENTS_def EPIPE_def SIGPIPE_def

lemmas sys_defs = sys_read_def sys_write_def sys_close_def epoll_ctl_def perror_def
  nonblocking_def get_pending_data_def free_pending_data_def sys_accept_def
  fcntl_getfl_def fcntl_setfl_def sys_socket_def sys_epoll_create1_def

lemmas example_defs = init0_def boot0_def listening0_def conn5_def ECONNABORTED_def

subsection \<open>The example state is reached\<close>

text \<open>Whatever the peers will send and take (the scripts \<open>r\<close> and \<open>w\<close>), \<open>main\<close> gets
  to the state \<open>conn5\<close> with these scripts; the states \<open>burst5\<close>, \<open>full5\<close>, \<open>part5\<close> and
  \<open>hup5\<close> are of this form.\<close>

lemma conn5_reached:
  "main (init0\<lparr>backlog := [AccFd 5, AccErr ECONNABORTED], rd_script := r, wr_script := w\<rparr>) 2
        [WaitOk [\<lparr>events = EPOLLIN, data_fd = 3\<rparr>]]
     = Block SysEpollWait (conn5\<lparr>rd_script := r, wr_script := w\<rparr>)"
  by (auto simp: main_def startup_def handle_event_def accept_branch_def set_nonblocking_def
      Let_def example_defs header_defs sys_defs fun_eq_iff)

subsection \<open>Unfolding the loops\<close>

declare echo_loop.simps [simp del] read_loop.simps [simp del] accept_loop.simps [simp del]

lemma echo_loop_done:
  "\<not> total_sent < length buffer \<Longrightarrow> echo_loop s fd buffer total_sent = Ret s"
  by (subst echo_loop.simps) simp

lemma echo_loop_blocked:
  "total_sent < length buffer \<Longrightarrow> sys_write s fd (drop total_sent buffer) = Blocks \<Longrightarrow>
   echo_loop s fd buffer total_sent = Block SysWrite s"
  by (subst echo_loop.simps) simp

lemma echo_loop_killed:
  "total_sent < length buffer \<Longrightarrow> sys_write s fd (drop total_sent buffer) = Raises sig \<Longrightarrow>
   echo_loop s fd buffer total_sent = Kill sig s"
  by (subst echo_loop.simps) simp

lemma echo_loop_step:
  "total_sent < length buffer \<Longrightarrow> sys_write s fd (drop total_sent buffer) = Returns (sent, s1) \<Longrightarrow>
   sent \<noteq> - 1 \<Longrightarrow>
   echo_loop s fd buffer total_sent = echo_loop s1 fd buffer (total_sent + nat sent)"
  by (subst echo_loop.simps) simp

lemma echo_loop_failed:
  "total_sent < length buffer \<Longrightarrow> sys_write s fd (drop total_sent buffer) = Returns (- 1, s1) \<Longrightarrow>
   echo_loop s fd buffer total_sent = Ret (echo_failed s1 fd)"
  by (subst echo_loop.simps) (simp add: echo_failed_def Let_def)

lemma read_loop_blocked:
  "sys_read s fd (BUFFER_SIZE - length buffer) = None \<Longrightarrow>
   read_loop s fd buffer = Block SysRead s"
  by (subst read_loop.simps) simp

lemma read_loop_full:
  "sys_read s fd (BUFFER_SIZE - length buffer) = Some (n, bs, s1) \<Longrightarrow> 0 < n \<Longrightarrow>
   length (buffer @ bs) = BUFFER_SIZE \<Longrightarrow> read_loop s fd buffer = Ret s1"
  by (subst read_loop.simps) simp

lemma read_loop_step:
  "sys_read s fd (BUFFER_SIZE - length buffer) = Some (n, bs, s1) \<Longrightarrow> 0 < n \<Longrightarrow>
   length (buffer @ bs) \<noteq> BUFFER_SIZE \<Longrightarrow>
   read_loop s fd buffer = read_loop s1 fd (buffer @ bs)"
  by (subst read_loop.simps) simp

lemma read_loop_eof:
  "sys_read s fd (BUFFER_SIZE - length buffer) = Some (0, bs, s1) \<Longrightarrow>
   read_loop s fd buffer = Ret (sys_close s1 fd)"
  by (subst read_loop.simps) simp

lemma read_loop_again:
  "sys_read s fd (BUFFER_SIZE - length buffer) = Some (n, bs, s1) \<Longrightarrow> n < 0 \<Longrightarrow>
   errno s1 = EAGAIN \<or> errno s1 = EWOULDBLOCK \<Longrightarrow>
   read_loop s fd buffer = (if length buffer > 0 then echo_loop s1 fd buffer 0 else Ret s1)"
  by (subst read_loop.simps) simp

lemma read_loop_error:
  "sys_read s fd (BUFFER_SIZE - length buffer) = Some (n, bs, s1) \<Longrightarrow> n < 0 \<Longrightarrow>
   \<not> (errno s1 = EAGAIN \<or> errno s1 = EWOULDBLOCK) \<Longrightarrow>
   read_loop s fd buffer = Ret (sys_close (perror s1 ''read'') fd)"
  by (subst read_loop.simps) simp

lemma accept_loop_blocked:
  "sys_accept s (listen_fd s) = None \<Longrightarrow> accept_loop s = Block SysAccept s"
  by (subst accept_loop.simps) simp

lemma accept_loop_stop:
  "sys_accept s (listen_fd s) = Some (c, s1) \<Longrightarrow> \<not> 0 < c \<Longrightarrow> accept_loop s = Ret (c, s1)"
  by (subst accept_loop.simps) simp

lemma accept_loop_exit:
  "sys_accept s (listen_fd s) = Some (c, s1) \<Longrightarrow> 0 < c \<Longrightarrow>
   set_nonblocking s1 c = Exit e sx \<Longrightarrow> accept_loop s = Exit e sx"
  by (subst accept_loop.simps) simp

lemma accept_loop_step:
  "sys_accept s (listen_fd s) = Some (c, s1) \<Longrightarrow> 0 < c \<Longrightarrow>
   set_nonblocking s1 c = Ret s2 \<Longrightarrow> accept_loop s = accept_loop (accept_register s2 c)"
  by (subst accept_loop.simps) (simp add: accept_register_def Let_def)

subsection \<open>Where the process can block\<close>


lemma echo_loop_block: "blocked_in (echo_loop s fd buffer total_sent) \<noteq> Some SysEpollWait"
proof (induction s fd buffer total_sent rule: echo_loop.induct)
  case (1 s fd buffer total_sent)
  show ?case
    by (subst echo_loop.simps) (auto simp: 1 Let_def split: called.splits prod.splits)
qed


lemma read_loop_block: "blocked_in (read_loop s fd buffer) \<noteq> Some SysEpollWait"
proof (induction s fd buffer rule: read_loop.induct)
  case (1 s fd buffer)
  show ?case
    by (subst read_loop.simps) (auto simp: 1 echo_loop_block split: option.splits prod.splits)
qed


lemma handle_writable_block: "blocked_in (handle_writable s fd) \<noteq> Some SysEpollWait"
  by (auto simp: handle_writable_def Let_def split: called.splits prod.splits)

lemma set_nonblocking_block: "blocked_in (set_nonblocking s fd) = None"
  by (auto simp: set_nonblocking_def split: prod.splits)

lemma set_nonblocking_not_block: "set_nonblocking s fd \<noteq> Block b sx"
  by (auto simp: set_nonblocking_def split: prod.splits)

lemma accept_loop_block: "blocked_in (accept_loop s) \<noteq> Some SysEpollWait"
proof (induction s rule: accept_loop.induct)
  case (1 s)
  show ?case
    by (subst accept_loop.simps)
       (auto simp: 1 Let_def set_nonblocking_not_block split: option.splits prod.splits outcome.splits)
qed

lemma accept_branch_block: "blocked_in (accept_branch s) \<noteq> Some SysEpollWait"
  using accept_loop_block [of s]
  by (auto simp: accept_branch_def split: outcome.splits prod.splits)

lemma handle_event_block: "blocked_in (handle_event s ev) \<noteq> Some SysEpollWait"
  by (simp add: handle_event_def accept_branch_block read_loop_block handle_writable_block)

lemma for_events_block: "blocked_in (for_events s evs) \<noteq> Some SysEpollWait"
proof (induction evs arbitrary: s)
  case Nil
  show ?case by simp
next
  case (Cons ev evs)
  show ?case
    using handle_event_block [of s ev] Cons
    by (cases "handle_event s ev") auto
qed

lemma event_loop_append:
  "event_loop s (map WaitOk bs) = Block SysEpollWait s1 \<Longrightarrow>
   event_loop s (map WaitOk bs @ ws) = event_loop s1 ws"
proof (induction bs arbitrary: s)
  case Nil
  then show ?case by simp
next
  case (Cons b bs)
  show ?case
  proof (cases "for_events s (take MAX_EVENTS b)")
    case (Ret s2)
    with Cons show ?thesis by simp
  next
    case (Exit c sx)
    with Cons.prems show ?thesis by simp
  next
    case (Block y sx)
    with Cons.prems for_events_block [of s "take MAX_EVENTS b"] show ?thesis by simp
  next
    case (Kill sig sx)
    with Cons.prems show ?thesis by simp
  qed
qed

subsection \<open>What an event touches and what can end the process\<close>

text \<open>The relations \<open>kept\<close>, \<open>within\<close> and \<open>accept_untouched\<close> are reflexive and
  transitive and hold across each system call, so they hold across the loops. With them:
  a handler is never killed unless a \<open>write\<close> fails with \<open>EPIPE\<close>, and the accept loop
  never exits unless \<open>fcntl\<close> fails.\<close>

lemma kept_refl: "kept s s"
  by (simp add: kept_def)

lemma kept_trans: "kept a b \<Longrightarrow> kept b c \<Longrightarrow> kept a c"
  by (simp add: kept_def)


lemma kept_pending: "kept s s' \<Longrightarrow> pending s = Map.empty \<Longrightarrow> pending s' = Map.empty"
  by (auto simp: kept_def)

lemma within_refl: "within fd s s"
  by (simp add: within_def others_untouched_def kept_def)

lemma within_trans: "within fd a b \<Longrightarrow> within fd b c \<Longrightarrow> within fd a c"
  by (simp add: within_def others_untouched_def kept_def)

lemma sys_close_within: "within fd s (sys_close s fd)"
  by (simp add: within_def others_untouched_def kept_def sys_close_def)

lemma perror_within: "within fd s (perror s m)"
  by (simp add: within_def others_untouched_def kept_def perror_def)

lemma event_upd_within: "within fd s (s\<lparr>event := e\<rparr>)"
  by (simp add: within_def others_untouched_def kept_def)

lemma epoll_ctl_within: "within fd s (snd (epoll_ctl s ep op fd ev))"
  by (simp add: within_def others_untouched_def kept_def epoll_ctl_def
      split: ctl_op.splits option.splits)

lemma sys_write_within: "sys_write s fd bs = Returns (n, s1) \<Longrightarrow> within fd s s1"
  by (auto simp: sys_write_def within_def others_untouched_def kept_def
      split: if_splits list.splits wr_res.splits)

lemma sys_write_raises:
  "sys_write s fd bs = Raises sig \<Longrightarrow> WErr EPIPE \<in> set (wr_script s fd) \<and> sig = SIGPIPE"
  by (auto simp: sys_write_def split: if_splits list.splits wr_res.splits)

lemma sys_read_within: "sys_read s fd cnt = Some (n, bs, s1) \<Longrightarrow> within fd s s1"
  by (auto simp: sys_read_def within_def others_untouched_def kept_def
      split: if_splits list.splits rd_res.splits)


lemma free_pending_within: "within fd s (free_pending_data s fd)"
  by (simp add: within_def others_untouched_def kept_def free_pending_data_def)

lemma echo_failed_within: "within fd s (echo_failed s fd)"
proof -
  let ?s2 = "s\<lparr>event := \<lparr>events = EPOLLOUT OR EPOLLET OR EPOLLRDHUP, data_fd = fd\<rparr>\<rparr>"
  let ?r = "epoll_ctl ?s2 (epoll_fd ?s2) EPOLL_CTL_MOD fd (event ?s2)"
  have a: "within fd s (snd ?r)"
    using within_trans [OF event_upd_within epoll_ctl_within] .
  have b: "within fd s (sys_close (perror (snd ?r) ''epoll_ctl EPOLL_CTL_MOD'') fd)"
    using within_trans [OF a within_trans [OF perror_within sys_close_within]] .
  have c: "within fd s (sys_close (perror s ''write'') fd)"
    using within_trans [OF perror_within sys_close_within] .
  from a b c show ?thesis
    by (simp add: echo_failed_def Let_def)
qed

lemma within_pipe:
  "within fd s s1 \<Longrightarrow> WErr EPIPE \<notin> set (wr_script s fd) \<Longrightarrow> WErr EPIPE \<notin> set (wr_script s1 fd)"
  by (simp add: within_def kept_def) blast

lemma echo_loop_within:
  "within fd s (the_state (echo_loop s fd buffer total_sent))
   \<and> (WErr EPIPE \<notin> set (wr_script s fd) \<longrightarrow> killed_by (echo_loop s fd buffer total_sent) = None)"
proof (induction s fd buffer total_sent rule: echo_loop.induct)
  case (1 s fd buffer total_sent)
  show ?case
  proof (cases "total_sent < length buffer")
    case False
    then show ?thesis by (simp add: echo_loop_done within_refl)
  next
    case True
    show ?thesis
    proof (cases "sys_write s fd (drop total_sent buffer)")
      case Blocks
      with True show ?thesis by (simp add: echo_loop_blocked within_refl)
    next
      case (Raises sig)
      with True sys_write_raises [OF Raises] show ?thesis
        by (simp add: echo_loop_killed within_refl)
    next
      case (Returns p)
      obtain sent s1 where p: "p = (sent, s1)" by (cases p)
      have w: "sys_write s fd (drop total_sent buffer) = Returns (sent, s1)"
        using Returns p by simp
      have f1: "within fd s s1"
        using w by (rule sys_write_within)
      show ?thesis
      proof (cases "sent = - 1")
        case False
        have step: "echo_loop s fd buffer total_sent = echo_loop s1 fd buffer (total_sent + nat sent)"
          using echo_loop_step [OF True w False] .
        note ih = "1.IH" [OF True Returns p [symmetric] False]
        from ih within_trans [OF f1] within_pipe [OF f1] show ?thesis
          unfolding step by blast
      next
        case m1: True
        have "echo_loop s fd buffer total_sent = Ret (echo_failed s1 fd)"
          using True w m1 echo_loop_failed [of total_sent buffer s fd s1] by simp
        with within_trans [OF f1 echo_failed_within] show ?thesis by simp
      qed
    qed
  qed
qed

lemma read_loop_within:
  "within fd s (the_state (read_loop s fd buffer))
   \<and> (WErr EPIPE \<notin> set (wr_script s fd) \<longrightarrow> killed_by (read_loop s fd buffer) = None)"
proof (induction s fd buffer rule: read_loop.induct)
  case (1 s fd buffer)
  show ?case
  proof (cases "sys_read s fd (BUFFER_SIZE - length buffer)")
    case None
    then show ?thesis by (simp add: read_loop_blocked within_refl)
  next
    case (Some p)
    obtain n bs s1 where p: "p = (n, bs, s1)" by (cases p)
    have r: "sys_read s fd (BUFFER_SIZE - length buffer) = Some (n, bs, s1)"
      using Some p by simp
    have f1: "within fd s s1"
      using r by (rule sys_read_within)
    consider (pos_full) "0 < n" "length (buffer @ bs) = BUFFER_SIZE"
      | (pos_more) "0 < n" "length (buffer @ bs) \<noteq> BUFFER_SIZE"
      | (zero) "n = 0"
      | (again) "n < 0" "errno s1 = EAGAIN \<or> errno s1 = EWOULDBLOCK"
      | (err) "n < 0" "\<not> (errno s1 = EAGAIN \<or> errno s1 = EWOULDBLOCK)"
      by linarith
    then show ?thesis
    proof cases
      case pos_full
      with r f1 read_loop_full [of s fd buffer n bs s1] show ?thesis by simp
    next
      case pos_more
      have step: "read_loop s fd buffer = read_loop s1 fd (buffer @ bs)"
        using read_loop_step [OF r pos_more] .
      note ih = "1.IH" [OF Some p [symmetric] refl pos_more(1) pos_more(2)]
      from ih within_trans [OF f1] within_pipe [OF f1] show ?thesis
        unfolding step by blast
    next
      case zero
      with r read_loop_eof [of s fd buffer bs s1] within_trans [OF f1 sys_close_within]
      show ?thesis by simp
    next
      case again
      have step: "read_loop s fd buffer = (if length buffer > 0 then echo_loop s1 fd buffer 0 else Ret s1)"
        using read_loop_again [OF r again] .
      show ?thesis
      proof (cases "length buffer > 0")
        case True
        from echo_loop_within [of fd s1 buffer 0] within_trans [OF f1] within_pipe [OF f1]
        show ?thesis unfolding step using True by auto
      next
        case False
        with f1 show ?thesis unfolding step by simp
      qed
    next
      case err
      with r read_loop_error [of s fd buffer n bs s1]
        within_trans [OF f1 within_trans [OF perror_within sys_close_within]]
      show ?thesis by simp
    qed
  qed
qed

lemma sys_write_bound: "sys_write s fd bs = Returns (n, s1) \<Longrightarrow> n \<le> int (length bs)"
  by (auto simp: sys_write_def split: if_splits list.splits wr_res.splits)

lemma handle_writable_within:
  "within fd s (the_state (handle_writable s fd))
   \<and> (WErr EPIPE \<notin> set (wr_script s fd) \<longrightarrow> killed_by (handle_writable s fd) = None)"
proof (cases "sys_write s fd (take (total_len (get_pending_data s fd) - sent_len (get_pending_data s fd))
                                (drop (sent_len (get_pending_data s fd)) (buf (get_pending_data s fd))))")
  case Blocks
  then show ?thesis by (simp add: handle_writable_def Let_def within_refl)
next
  case (Raises sig)
  with sys_write_raises [OF Raises] show ?thesis
    by (simp add: handle_writable_def Let_def within_refl)
next
  case (Returns p)
  obtain sent s1 where p: "p = (sent, s1)" by (cases p)
  have f1: "within fd s s1"
    using Returns p by (auto intro: sys_write_within)
  have f2: "0 < sent \<Longrightarrow> \<exists>y. pending s fd = Some y"
    using Returns p sys_write_bound [of s fd "[]" sent s1]
    by (cases "pending s fd") (auto simp: get_pending_data_def)
  from f1 f2 show ?thesis
    using Returns p
    by (simp add: handle_writable_def Let_def within_def others_untouched_def kept_def
        free_pending_data_def sys_close_def epoll_ctl_def split: option.splits)
qed


lemma au_refl: "accept_untouched s s"
  by (simp add: accept_untouched_def)

lemma au_trans:
  assumes "accept_untouched a b" and "accept_untouched b c"
  shows "accept_untouched a c"
proof -
  have sub: "\<And>r. r \<in> set (backlog b) \<Longrightarrow> r \<in> set (backlog a)"
    using assms(1) by (simp add: accept_untouched_def)
  have "\<And>x. AccFd x \<notin> set (backlog a) \<Longrightarrow> AccFd x \<notin> set (backlog b)"
    using sub by blast
  with assms show ?thesis
    by (simp add: accept_untouched_def)
qed

lemma au_kept: "accept_untouched s s' \<Longrightarrow> kept s s'"
  by (simp add: accept_untouched_def kept_def)

lemma au_perror: "accept_untouched s s' \<Longrightarrow> accept_untouched s (perror s' m)"
  by (simp add: accept_untouched_def perror_def)

lemma sys_accept_au: "sys_accept s l = Some (c, s1) \<Longrightarrow> accept_untouched s s1"
  by (auto simp: sys_accept_def accept_untouched_def split: if_splits list.splits acc_res.splits)

lemma sys_accept_head:
  "sys_accept s l = Some (c, s1) \<Longrightarrow> 0 < c \<Longrightarrow> AccFd c \<in> set (backlog s)"
  by (auto simp: sys_accept_def split: if_splits list.splits acc_res.splits)

lemma sys_accept_opens:
  "sys_accept s l = Some (c, s1) \<Longrightarrow> 0 < c \<Longrightarrow> c \<in> open_fds s1 \<and> fl s1 c = O_RDWR"
  by (auto simp: sys_accept_def split: if_splits list.splits acc_res.splits)

lemma set_nonblocking_succeeds:
  "fd \<in> open_fds s \<Longrightarrow> fl s fd \<noteq> - 1 \<Longrightarrow> fd \<notin> getfl_fail s \<Longrightarrow> fd \<notin> setfl_fail s \<Longrightarrow>
   set_nonblocking s fd = Ret (s\<lparr>fl := (fl s)(fd := fl s fd OR O_NONBLOCK)\<rparr>)"
  by (simp add: set_nonblocking_def fcntl_getfl_def fcntl_setfl_def)

lemma set_nonblocking_not_kill: "set_nonblocking s fd \<noteq> Kill sig sx"
  by (auto simp: set_nonblocking_def split: prod.splits)

lemma only_fd_trans: "only_fd c s1 s2 \<Longrightarrow> only_fd c s2 s3 \<Longrightarrow> only_fd c s1 s3"
  by (simp add: only_fd_def)

lemma only_fd_au:
  "accept_untouched s s1 \<Longrightarrow> AccFd c \<in> set (backlog s) \<Longrightarrow> only_fd c s1 s2 \<Longrightarrow>
   accept_untouched s s2"
  by (simp add: accept_untouched_def only_fd_def) metis

lemma set_nonblocking_only: "only_fd c s (the_state (set_nonblocking s c))"
  by (simp add: set_nonblocking_def fcntl_getfl_def fcntl_setfl_def only_fd_def perror_def)

lemma accept_register_only: "only_fd c s (accept_register s c)"
  by (simp add: accept_register_def Let_def only_fd_def epoll_ctl_def sys_close_def perror_def
      split: option.splits)

lemma accept_loop_contained:
  "accept_untouched s (loop_state (accept_loop s))
   \<and> killed_by (accept_loop s) = None
   \<and> (getfl_fail s = {} \<and> setfl_fail s = {} \<longrightarrow> exit_status (accept_loop s) = None)"
proof (induction s rule: accept_loop.induct)
  case (1 s)
  show ?case
  proof (cases "sys_accept s (listen_fd s)")
    case None
    then show ?thesis by (simp add: accept_loop_blocked au_refl)
  next
    case (Some p)
    obtain c s1 where p: "p = (c, s1)" by (cases p)
    have a: "sys_accept s (listen_fd s) = Some (c, s1)" using Some p by simp
    have f1: "accept_untouched s s1" using a by (rule sys_accept_au)
    show ?thesis
    proof (cases "0 < c")
      case False
      with a f1 show ?thesis by (simp add: accept_loop_stop)
    next
      case True
      have hd: "AccFd c \<in> set (backlog s)" using a True by (rule sys_accept_head)
      have f2: "accept_untouched s (the_state (set_nonblocking s1 c))"
        using f1 hd set_nonblocking_only by (rule only_fd_au)
      show ?thesis
      proof (cases "set_nonblocking s1 c")
        case (Exit e sx)
        have "getfl_fail s = {} \<and> setfl_fail s = {} \<Longrightarrow> False"
        proof -
          assume ok: "getfl_fail s = {} \<and> setfl_fail s = {}"
          with f1 have "c \<notin> getfl_fail s1" "c \<notin> setfl_fail s1"
            by (simp_all add: accept_untouched_def)
          with sys_accept_opens [OF a True] Exit
            set_nonblocking_succeeds [of c s1] show False
            by (simp add: O_RDWR_def)
        qed
        with f2 Exit accept_loop_exit [OF a True Exit] show ?thesis by auto
      next
        case (Block b sx)
        with set_nonblocking_not_block show ?thesis by blast
      next
        case (Kill sig sx)
        with set_nonblocking_not_kill show ?thesis by blast
      next
        case (Ret s2)
        have step: "accept_loop s = accept_loop (accept_register s2 c)"
          using accept_loop_step [OF a True Ret] .
        have f3: "accept_untouched s (accept_register s2 c)"
          using f2 Ret only_fd_au [OF _ hd accept_register_only] by simp
        have ih: "accept_untouched (accept_register s2 c) (loop_state (accept_loop (accept_register s2 c)))
            \<and> killed_by (accept_loop (accept_register s2 c)) = None
            \<and> (getfl_fail (accept_register s2 c) = {} \<and> setfl_fail (accept_register s2 c) = {}
                 \<longrightarrow> exit_status (accept_loop (accept_register s2 c)) = None)"
        proof (cases "fst (epoll_ctl (s2\<lparr>event := \<lparr>events = EPOLLIN OR EPOLLET OR EPOLLRDHUP, data_fd = c\<rparr>\<rparr>)
                        (epoll_fd s2) EPOLL_CTL_ADD c
                        \<lparr>events = EPOLLIN OR EPOLLET OR EPOLLRDHUP, data_fd = c\<rparr>) = - 1")
          case f: True
          from "1.IH"(1) [OF Some p [symmetric] True Ret refl refl] f
          show ?thesis by (simp add: accept_register_def Let_def)
        next
          case f: False
          from "1.IH"(2) [OF Some p [symmetric] True Ret refl refl] f
          show ?thesis by (simp add: accept_register_def Let_def)
        qed
        have g: "getfl_fail (accept_register s2 c) = getfl_fail s"
          "setfl_fail (accept_register s2 c) = setfl_fail s"
          using f3 by (simp_all add: accept_untouched_def)
        from ih au_trans [OF f3] show ?thesis
          unfolding step g by blast
      qed
    qed
  qed
qed

lemma accept_branch_contained:
  "accept_untouched s (the_state (accept_branch s))
   \<and> killed_by (accept_branch s) = None
   \<and> (getfl_fail s = {} \<and> setfl_fail s = {} \<longrightarrow> exit_status (accept_branch s) = None)"
  using accept_loop_contained [of s]
  by (cases "accept_loop s") (auto simp: accept_branch_def au_perror split: if_splits)


lemma within_kept: "within fd s s' \<Longrightarrow> kept s s'"
  by (simp add: within_def)

lemma handle_event_kept: "kept s (the_state (handle_event s ev))"
proof -
  have "kept s (the_state (accept_branch s))"
    using accept_branch_contained [of s] by (simp add: au_kept)
  moreover have "kept s (the_state (read_loop s (data_fd ev) []))"
    using read_loop_within [of "data_fd ev" s "[]"] by (blast intro: within_kept)
  moreover have "kept s (the_state (handle_writable s (data_fd ev)))"
    using handle_writable_within [of "data_fd ev" s] by (blast intro: within_kept)
  moreover have "kept s (sys_close s (data_fd ev))"
    using sys_close_within [of "data_fd ev" s] by (rule within_kept)
  ultimately show ?thesis
    by (simp add: handle_event_def kept_refl)
qed


lemma for_events_kept: "kept s (the_state (for_events s evs))"
proof (induction evs arbitrary: s)
  case Nil
  show ?case by (simp add: kept_refl)
next
  case (Cons ev evs)
  show ?case
    using handle_event_kept [of s ev] Cons [of "the_state (handle_event s ev)"]
    by (cases "handle_event s ev") (auto intro: kept_trans)
qed


lemma event_loop_kept: "kept s (the_state (event_loop s ws))"
proof (induction ws arbitrary: s)
  case Nil
  show ?case by (simp add: kept_refl)
next
  case (Cons w ws)
  show ?case
  proof (cases w)
    case (WaitErr e)
    then show ?thesis by (simp add: Let_def kept_def sys_close_def perror_def)
  next
    case (WaitOk evs)
    from for_events_kept [of s "take MAX_EVENTS evs"]
      Cons [of "the_state (for_events s (take MAX_EVENTS evs))"] WaitOk
    show ?thesis
      by (cases "for_events s (take MAX_EVENTS evs)") (auto intro: kept_trans)
  qed
qed



lemma startup_kept: "kept s0 (the_state (startup s0 argc))"
  by (simp add: startup_def Let_def sys_socket_def sys_epoll_create1_def epoll_ctl_def
        kept_def sys_close_def perror_def split: prod.splits option.splits)

lemma startup_status:
  "exit_status (startup s0 argc) = None \<or> exit_status (startup s0 argc) = Some EXIT_FAILURE"
  by (auto simp: startup_def Let_def split: if_splits prod.splits)


lemma main_kept: "kept s0 (the_state (main s0 argc waits))"
  using startup_kept [of s0 argc] event_loop_kept [of "the_state (startup s0 argc)" waits]
  by (cases "startup s0 argc") (auto simp: main_def intro: kept_trans)

text \<open>Whenever the handling of an event of a connection has reported a failure with
  \<open>perror\<close>, it has closed the connection. In the accept loop a connection whose
  registration fails is closed.\<close>

lemma sys_close_closed: "fd \<notin> open_fds (sys_close s fd)"
  by (simp add: sys_close_def)








lemma failed_registration_closes:
  "fst (epoll_ctl (s\<lparr>event := \<lparr>events = EPOLLIN OR EPOLLET OR EPOLLRDHUP, data_fd = c\<rparr>\<rparr>)
          (epoll_fd s) EPOLL_CTL_ADD c
          \<lparr>events = EPOLLIN OR EPOLLET OR EPOLLRDHUP, data_fd = c\<rparr>) = - 1 \<Longrightarrow>
   c \<notin> open_fds (accept_register s c)"
  by (simp add: accept_register_def Let_def sys_close_closed)





subsection \<open>The full buffer\<close>

text \<open>
  Claim C3. If a Readable round fills the accumulation buffer without reaching
  would-block, the engine stops accumulating and goes on to the write attempt for that
  first chunk; it does not drop the accumulated bytes without attempting the echo.

  The source leaves the read loop with \<open>break\<close> when \<open>total_read == sizeof(buffer)\<close>
  (line 182), and the echo is inside the would-block branch of that loop (line 196), so
  the \<open>break\<close> skips it. On a burst of 2000 bytes the branch reads 1024 of them, leaves
  976 in the queue and returns: nothing is written, the write script is untouched and no
  other field of the state changes.
\<close>

theorem full_buffer_is_not_echoed:
  "handle_event burst5 \<lparr>events = EPOLLIN, data_fd = 5\<rparr>
     = Ret (burst5\<lparr>rd_script := (\<lambda>fd. [])(5 := [RData (replicate 976 65)])\<rparr>)"
  by (simp add: echo_loop.simps read_loop.simps handle_event_def burst5_def example_defs header_defs sys_defs)

text \<open>
  Claim C1. Every byte sequence of length at most \<open>BUFFER_SIZE\<close> that a client sends
  and then pauses comes back exactly from the Readable branch.

  At the bound itself the source does not echo: 1024 bytes fill the buffer, the loop is
  left by the \<open>break\<close> of line 184 and the bytes are gone from the queue with nothing
  written.
\<close>

theorem message_of_buffer_size_is_lost:
  "handle_event full5 \<lparr>events = EPOLLIN, data_fd = 5\<rparr>
     = Ret (full5\<lparr>rd_script := (\<lambda>fd. [])(5 := [])\<rparr>)"
  by (simp add: echo_loop.simps read_loop.simps handle_event_def full5_def example_defs header_defs sys_defs)

text \<open>In general: whenever the first \<open>read\<close> of a round finds \<open>BUFFER_SIZE\<close> bytes or more,
  the Readable branch takes \<open>BUFFER_SIZE\<close> of them and returns without a \<open>write\<close>.\<close>

lemma full_round_writes_nothing:
  assumes "data_fd ev \<noteq> listen_fd s" and "events ev AND (EPOLLRDHUP OR EPOLLHUP) = 0"
    and "events ev AND EPOLLIN \<noteq> 0" and "data_fd ev \<in> open_fds s"
    and "rd_script s (data_fd ev) = RData bs # rest" and "BUFFER_SIZE \<le> length bs"
  shows "handle_event s ev =
           Ret (s\<lparr>rd_script := (rd_script s)
                  (data_fd ev := (if length bs = BUFFER_SIZE then rest
                                  else RData (drop BUFFER_SIZE bs) # rest))\<rparr>)"
proof -
  let ?fd = "data_fd ev"
  let ?s1 = "s\<lparr>rd_script := (rd_script s)
                  (?fd := (if length bs = BUFFER_SIZE then rest
                           else RData (drop BUFFER_SIZE bs) # rest))\<rparr>"
  have r: "sys_read s ?fd (BUFFER_SIZE - length ([] :: byte list))
             = Some (int BUFFER_SIZE, take BUFFER_SIZE bs, ?s1)"
    using assms(4-6) by (auto simp: sys_read_def)
  have "handle_event s ev = read_loop s ?fd []"
    using assms(1-3) by (simp add: handle_event_def)
  also have "\<dots> = Ret ?s1"
    using assms(6) by (intro read_loop_full [OF r]) (simp_all add: BUFFER_SIZE_def)
  finally show ?thesis .
qed

subsection \<open>The write that would block\<close>

text \<open>
  Claim C7. In every reachable state of an open connection the pending output is
  non-empty exactly when the registered interest includes Writable.

  When the echo \<open>write\<close> would block, the source switches the registration to
  \<open>EPOLLOUT | EPOLLET | EPOLLRDHUP\<close> (lines 215 to 217) and leaves the loop; the bytes not
  yet sent stay in the local array \<open>buffer\<close> and nothing is put into the pending table.
  After the Readable branch on three bytes of which the socket takes one, descriptor 5 is
  open and registered for Writable with no pending output.
\<close>

theorem writable_interest_without_pending_output:
  "handle_event part5 \<lparr>events = EPOLLIN, data_fd = 5\<rparr>
     = Ret (part5\<lparr>rd_script := (\<lambda>fd. [])(5 := []), wr_script := (\<lambda>fd. [])(5 := []),
              wire := (\<lambda>fd. [])(5 := [1]), errno := EAGAIN,
              event := \<lparr>events = EPOLLOUT OR EPOLLET OR EPOLLRDHUP, data_fd = 5\<rparr>,
              interest := (interest part5)
                (5 \<mapsto> \<lparr>events = EPOLLOUT OR EPOLLET OR EPOLLRDHUP, data_fd = 5\<rparr>)\<rparr>)"
  by (simp add: echo_loop.simps read_loop.simps handle_event_def part5_def example_defs header_defs sys_defs)

text \<open>
  Claim C2. When the echo write would block partway, the unsent remainder is stored in
  the pending output with its cursor and the client receives all of the bytes once it
  reads again.

  The same run as above, continued: the peer reads again (the send queue has room for
  4096 bytes) and the Writable event fires. \<open>get_pending_data\<close> has nothing for
  descriptor 5, so nothing is written: the peer has received the first byte only, and the
  bytes 2 and 3 are in no buffer of the program.
\<close>

theorem remainder_of_partial_echo_is_lost:
  "wire (the_state (handle_event
       ((the_state (handle_event part5 \<lparr>events = EPOLLIN, data_fd = 5\<rparr>))
          \<lparr>wr_script := (\<lambda>fd. [WOk 4096])\<rparr>)
       \<lparr>events = EPOLLOUT, data_fd = 5\<rparr>)) 5 = [1]
   \<and> pending (the_state (handle_event part5 \<lparr>events = EPOLLIN, data_fd = 5\<rparr>)) 5 = None"
  by (simp add: echo_loop.simps read_loop.simps handle_event_def handle_writable_def part5_def example_defs header_defs
      sys_defs)

text \<open>In general: when the socket takes only the first \<open>k\<close> bytes of the echo, these are
  written, the registration is switched to \<open>EPOLLOUT | EPOLLET | EPOLLRDHUP\<close>, and the
  pending table is what it was.\<close>

lemma partial_echo_stores_nothing:
  assumes "data_fd ev \<noteq> listen_fd s" and "events ev AND (EPOLLRDHUP OR EPOLLHUP) = 0"
    and "events ev AND EPOLLIN \<noteq> 0"
    and "data_fd ev \<in> open_fds s" and "nonblocking s (data_fd ev)"
    and "epoll_fd s \<in> open_fds s" and "data_fd ev \<notin> ctl_fail s"
    and "interest s (data_fd ev) = Some old"
    and "rd_script s (data_fd ev) = [RData bs]" and "length bs < BUFFER_SIZE"
    and "wr_script s (data_fd ev) = [WOk k]" and "0 < k" and "k < length bs"
  shows "handle_event s ev =
           Ret (s\<lparr>rd_script := (rd_script s)(data_fd ev := []),
                  wire := (wire s)(data_fd ev := wire s (data_fd ev) @ take k bs),
                  wr_script := (wr_script s)(data_fd ev := []),
                  errno := EAGAIN,
                  event := \<lparr>events = EPOLLOUT OR EPOLLET OR EPOLLRDHUP, data_fd = data_fd ev\<rparr>,
                  interest := (interest s)(data_fd ev \<mapsto>
                     \<lparr>events = EPOLLOUT OR EPOLLET OR EPOLLRDHUP, data_fd = data_fd ev\<rparr>)\<rparr>)"
proof -
  let ?fd = "data_fd ev"
  let ?s1 = "s\<lparr>rd_script := (rd_script s)(?fd := [])\<rparr>"
  let ?s2 = "?s1\<lparr>errno := EAGAIN\<rparr>"
  let ?s3 = "?s2\<lparr>wire := (wire ?s2)(?fd := wire ?s2 ?fd @ take k bs),
                  wr_script := (wr_script ?s2)(?fd := [])\<rparr>"
  let ?s4 = "?s3\<lparr>errno := EAGAIN\<rparr>"
  have ne: "bs \<noteq> []" using assms(12,13) by auto
  have r1: "sys_read s ?fd (BUFFER_SIZE - length ([] :: byte list)) = Some (int (length bs), bs, ?s1)"
    using assms(4,9,10) by (simp add: sys_read_def)
  have r2: "sys_read ?s1 ?fd (BUFFER_SIZE - length ([] @ bs)) = Some (- 1, [], ?s2)"
    using assms(4,5) by (simp add: sys_read_def nonblocking_def)
  have w1: "sys_write ?s2 ?fd (drop 0 bs) = Returns (int k, ?s3)"
    using assms(4,11,13) ne by (simp add: sys_write_def min_def)
  have w2: "sys_write ?s3 ?fd (drop (0 + nat (int k)) bs) = Returns (- 1, ?s4)"
    using assms(4,5,13) by (simp add: sys_write_def nonblocking_def)
  have "handle_event s ev = read_loop s ?fd []"
    using assms(1-3) by (simp add: handle_event_def)
  also have "\<dots> = read_loop ?s1 ?fd ([] @ bs)"
    using ne assms(10) by (intro read_loop_step [OF r1]) simp_all
  also have "\<dots> = echo_loop ?s2 ?fd ([] @ bs) 0"
    using ne read_loop_again [OF r2] by simp
  also have "\<dots> = echo_loop ?s3 ?fd bs (0 + nat (int k))"
    using ne echo_loop_step [OF _ w1] by simp
  also have "\<dots> = Ret (echo_failed ?s4 ?fd)"
    using assms(13) by (intro echo_loop_failed [OF _ w2]) simp
  finally show ?thesis
    using assms(4,6,7,8)
    by (simp add: echo_failed_def epoll_ctl_def Let_def)
qed

subsection \<open>The Writable branch\<close>


text \<open>The pending table is empty at every point of every run of \<open>main\<close> that starts with
  an empty table: the program stores nothing in it.\<close>

lemma pending_stays_empty:
  "pending s0 = Map.empty \<Longrightarrow> pending (the_state (main s0 argc waits)) = Map.empty"
  using main_kept [of s0 argc waits] by (rule kept_pending)

text \<open>The single \<open>write\<close> of the branch, if the table did hold data (state \<open>drain5\<close>, which
  by \<open>pending_stays_empty\<close> no run of \<open>main\<close> gets to): with three bytes pending and a
  socket that takes one byte now and two on the next call, the branch sends one byte,
  moves the cursor to 1 and returns. Two bytes remain, the next \<open>write\<close> would have taken
  them, and no call has reported would-block.\<close>

lemma writable_branch_writes_once:
  "handle_event drain5 \<lparr>events = EPOLLOUT, data_fd = 5\<rparr>
     = Ret (drain5\<lparr>pending := [5 \<mapsto> \<lparr>buf = [1, 2, 3], sent_len = 1, total_len = 3\<rparr>],
               wire := (\<lambda>fd. [])(5 := [1]),
               wr_script := (\<lambda>fd. [])(5 := [WOk 2])\<rparr>)"
  by (simp add: handle_event_def handle_writable_def drain5_def example_defs header_defs
      sys_defs)

subsection \<open>Failures and the exit status\<close>

text \<open>
  Claim C10. If \<open>epoll_wait\<close> itself fails, the event loop is left and the process ends
  with exit status 0, after \<open>perror\<close> has reported the failure.

  Whenever \<open>main\<close> has come through its set-up and the batches of events \<open>bs\<close> and is
  waiting in \<open>epoll_wait\<close> in state \<open>s\<close>, a failure of that call makes \<open>main\<close> return 0:
  the message is printed and the listening socket and the epoll instance are closed.
\<close>

theorem epoll_wait_failure_exits_with_0:
  assumes "main s0 argc (map WaitOk bs) = Block SysEpollWait s"
  shows "\<exists>s'. main s0 argc (map WaitOk bs @ WaitErr e # ws) = Exit 0 s'
           \<and> stderr s' = stderr s @ [''epoll_wait'']
           \<and> listen_fd s \<notin> open_fds s' \<and> epoll_fd s \<notin> open_fds s'"
proof (cases "startup s0 argc")
  case (Ret s1)
  with assms have "event_loop s1 (map WaitOk bs) = Block SysEpollWait s"
    by (simp add: main_def)
  then have "event_loop s1 (map WaitOk bs @ WaitErr e # ws) = event_loop s (WaitErr e # ws)"
    by (rule event_loop_append)
  with Ret show ?thesis
    by (simp add: main_def Let_def sys_close_def perror_def)
next
  case (Exit c sx)
  with assms show ?thesis by (simp add: main_def)
next
  case (Block b sx)
  with assms have "startup s0 argc = Block SysEpollWait s" by (simp add: main_def)
  then show ?thesis
    by (auto simp: startup_def Let_def split: if_splits prod.splits)next
  case (Kill sig sx)
  with assms show ?thesis by (simp add: main_def)
qed

lemma startup_init0: "startup init0 2 = Ret listening0"
  by (auto simp: startup_def listening0_def init0_def boot0_def sys_defs Let_def fun_eq_iff)

theorem epoll_wait_failure_exits_with_0_witness:
  "main init0 2 (map WaitOk []) = Block SysEpollWait listening0
   \<and> (\<exists>s'. main init0 2 (map WaitOk [] @ WaitErr 4 # []) = Exit 0 s'
           \<and> stderr s' = stderr listening0 @ [''epoll_wait'']
           \<and> listen_fd listening0 \<notin> open_fds s' \<and> epoll_fd listening0 \<notin> open_fds s')"
proof -
  have h: "main init0 2 (map WaitOk []) = Block SysEpollWait listening0"
    by (simp add: main_def startup_init0)
  from epoll_wait_failure_exits_with_0 [OF h, of 4 "[]"] h show ?thesis by simp
qed


text \<open>A \<open>write\<close> that fails with \<open>EPIPE\<close> ends the process as well: the source calls
  plain \<open>write\<close> and leaves \<open>SIGPIPE\<close> at its default action. Connection 5 sends three
  bytes and has gone when they are echoed.\<close>

lemma broken_pipe_kills_the_server:
  "killed_by (main (init0\<lparr>backlog := [AccFd 5, AccErr ECONNABORTED],
                          rd_script := (\<lambda>fd. [])(5 := [RData [1, 2, 3]]),
                          wr_script := (\<lambda>fd. [])(5 := [WErr EPIPE])\<rparr>) 2
                   [WaitOk [\<lparr>events = EPOLLIN, data_fd = 3\<rparr>],
                    WaitOk [\<lparr>events = EPOLLIN, data_fd = 5\<rparr>]])
     = Some SIGPIPE"
  by (simp add: echo_loop.simps read_loop.simps accept_loop.simps main_def startup_def
      handle_event_def accept_branch_def set_nonblocking_def Let_def example_defs header_defs
      sys_defs)


text \<open>The states \<open>trouble0\<close> and \<open>trouble5\<close> satisfy the hypotheses, and \<open>main\<close> gets
  from the first to the second.\<close>

lemma trouble5_reached:
  "main trouble0 2 [WaitOk [\<lparr>events = EPOLLIN, data_fd = 3\<rparr>]] = Block SysEpollWait trouble5"
  by (auto simp: echo_loop.simps read_loop.simps accept_loop.simps main_def startup_def
      handle_event_def accept_branch_def set_nonblocking_def Let_def example_defs header_defs
      sys_defs trouble0_def trouble5_def fun_eq_iff)



text \<open>In the run of the witness every kind of failure happens, as the messages of
  \<open>perror\<close> show: the first event on the listening socket ends with a failed \<open>accept\<close>;
  then the echo to connection 5 fails and the connection is closed; the second event on
  the listening socket accepts connection 6, whose registration fails, and ends with a
  failed \<open>accept\<close>. After that the process waits in \<open>epoll_wait\<close> and both connections are
  closed.\<close>

lemma trouble0_run:
  "blocked_in (main trouble0 2
        (map WaitOk [[\<lparr>events = EPOLLIN, data_fd = 3\<rparr>],
                     [\<lparr>events = EPOLLIN, data_fd = 5\<rparr>, \<lparr>events = EPOLLIN, data_fd = 3\<rparr>]]))
     = Some SysEpollWait
   \<and> stderr (the_state (main trouble0 2
        (map WaitOk [[\<lparr>events = EPOLLIN, data_fd = 3\<rparr>],
                     [\<lparr>events = EPOLLIN, data_fd = 5\<rparr>, \<lparr>events = EPOLLIN, data_fd = 3\<rparr>]])))
     = [''accept'', ''write'', ''epoll_ctl EPOLL_CTL_ADD'', ''accept'']
   \<and> open_fds (the_state (main trouble0 2
        (map WaitOk [[\<lparr>events = EPOLLIN, data_fd = 3\<rparr>],
                     [\<lparr>events = EPOLLIN, data_fd = 5\<rparr>, \<lparr>events = EPOLLIN, data_fd = 3\<rparr>]])))
     = {0, 1, 2, 3, 4}"
  by (auto simp: echo_loop.simps read_loop.simps accept_loop.simps main_def startup_def
      handle_event_def accept_branch_def set_nonblocking_def Let_def example_defs header_defs
      sys_defs trouble0_def)


subsection \<open>The peer-closed event\<close>

text \<open>
  Claim C9. When the PeerClosed condition fires, with or instead of Readable, the
  connection is closed only after any buffered input has been flushed, and it is never
  left registered with a dead peer.

  The source tests \<open>EPOLLRDHUP | EPOLLHUP\<close> before \<open>EPOLLIN\<close> (line 160) and closes at
  once. With the bytes 1, 2, 3 in the receive queue and both conditions reported, the
  descriptor is closed, the bytes are still unread and nothing has been written.
\<close>

theorem peer_closed_event_discards_buffered_input:
  "handle_event hup5 \<lparr>events = EPOLLIN OR EPOLLRDHUP, data_fd = 5\<rparr>
     = Ret (hup5\<lparr>open_fds := {0, 1, 2, 3, 4, 5} - {5},
                interest := (interest hup5)(5 := None)\<rparr>)"
  by (simp add: handle_event_def hup5_def example_defs header_defs sys_defs)

text \<open>
  Claim C9, amended. When \<open>EPOLLRDHUP\<close> or \<open>EPOLLHUP\<close> is reported for an open connection,
  with or without \<open>EPOLLIN\<close>, the connection is closed at once and leaves the interest
  list; no \<open>read\<close> and no \<open>write\<close> is made, so buffered input is discarded, not echoed.
\<close>

theorem peer_closed_event_closes_at_once:
  assumes "data_fd ev \<noteq> listen_fd s" and "events ev AND (EPOLLRDHUP OR EPOLLHUP) \<noteq> 0"
    and "data_fd ev \<in> open_fds s"
  shows "\<exists>s'. handle_event s ev = Ret s' \<and> data_fd ev \<notin> open_fds s'
           \<and> interest s' (data_fd ev) = None
           \<and> rd_script s' = rd_script s \<and> wr_script s' = wr_script s \<and> wire s' = wire s"
  using assms by (simp add: handle_event_def sys_close_def)

theorem peer_closed_event_closes_at_once_witness:
  "data_fd \<lparr>events = EPOLLHUP, data_fd = 5\<rparr> \<noteq> listen_fd hup5
   \<and> events \<lparr>events = EPOLLHUP, data_fd = 5\<rparr> AND (EPOLLRDHUP OR EPOLLHUP) \<noteq> 0
   \<and> data_fd \<lparr>events = EPOLLHUP, data_fd = 5\<rparr> \<in> open_fds hup5
   \<and> (\<exists>s'. handle_event hup5 \<lparr>events = EPOLLHUP, data_fd = 5\<rparr> = Ret s'
          \<and> 5 \<notin> open_fds s' \<and> interest s' 5 = None
          \<and> rd_script s' = rd_script hup5 \<and> wr_script s' = wr_script hup5
          \<and> wire s' = wire hup5)"
proof -
  have h1: "data_fd \<lparr>events = EPOLLHUP, data_fd = 5\<rparr> \<noteq> listen_fd hup5"
    and h2: "events \<lparr>events = EPOLLHUP, data_fd = 5\<rparr> AND (EPOLLRDHUP OR EPOLLHUP) \<noteq> 0"
    and h3: "data_fd \<lparr>events = EPOLLHUP, data_fd = 5\<rparr> \<in> open_fds hup5"
    by (simp_all add: hup5_def example_defs header_defs)
  from peer_closed_event_closes_at_once [OF h1 h2 h3] h1 h2 h3 show ?thesis by simp
qed

subsection \<open>Reading up to the end of the input\<close>

lemma read_loop_chunks:
  assumes "fd \<in> open_fds s" and "rd_script s fd = map RData chunks @ rest"
    and "\<forall>c\<in>set chunks. c \<noteq> []"
    and "length buffer + length (concat chunks) < BUFFER_SIZE"
  shows "read_loop s fd buffer
           = read_loop (s\<lparr>rd_script := (rd_script s)(fd := rest)\<rparr>) fd (buffer @ concat chunks)"
  using assms
proof (induction chunks arbitrary: s buffer)
  case Nil
  then have "(rd_script s)(fd := rest) = rd_script s" by (simp add: fun_upd_idem)
  then show ?case by simp
next
  case (Cons c cs)
  let ?s1 = "s\<lparr>rd_script := (rd_script s)(fd := map RData cs @ rest)\<rparr>"
  from Cons.prems have len: "length c \<le> BUFFER_SIZE - length buffer" and ne: "c \<noteq> []"
    and more: "length (buffer @ c) \<noteq> BUFFER_SIZE"
    by auto
  have r: "sys_read s fd (BUFFER_SIZE - length buffer) = Some (int (length c), c, ?s1)"
    using Cons.prems(1,2) len by (simp add: sys_read_def)
  have pos: "0 < int (length c)" using ne by simp
  have step: "read_loop s fd buffer = read_loop ?s1 fd (buffer @ c)"
    using read_loop_step [OF r pos more] .
  have ih: "read_loop ?s1 fd (buffer @ c)
              = read_loop (?s1\<lparr>rd_script := (rd_script ?s1)(fd := rest)\<rparr>) fd
                  ((buffer @ c) @ concat cs)"
    using Cons.prems by (intro Cons.IH) auto
  have eq: "?s1\<lparr>rd_script := (rd_script ?s1)(fd := rest)\<rparr>
              = s\<lparr>rd_script := (rd_script s)(fd := rest)\<rparr>"
    by simp
  have cat: "(buffer @ c) @ concat cs = buffer @ concat (c # cs)"
    by simp
  from step ih [unfolded eq cat] show ?case by (rule trans)
qed

text \<open>
  Claim C8. When a read returns zero length the connection goes to Closing: it leaves
  the multiplexer, its handle is closed and its record is gone, also when bytes were
  already accumulated in that round, which are discarded without an echo attempt.

  The round reads the chunks that are in the queue, fewer than \<open>BUFFER_SIZE\<close> bytes in
  all so that the loop gets to the read that returns 0. Then the descriptor is closed,
  which takes it off the interest list; the bytes written, the write scripts (no \<open>write\<close>
  was called) and the pending table are what they were. The program keeps no other
  record of a connection.
\<close>

theorem zero_length_read_closes_without_echo:
  assumes "data_fd ev \<noteq> listen_fd s" and "events ev AND (EPOLLRDHUP OR EPOLLHUP) = 0"
    and "events ev AND EPOLLIN \<noteq> 0" and "data_fd ev \<in> open_fds s"
    and "rd_script s (data_fd ev) = map RData chunks @ REof # rest"
    and "\<forall>c\<in>set chunks. c \<noteq> []" and "length (concat chunks) < BUFFER_SIZE"
  shows "\<exists>s'. handle_event s ev = Ret s' \<and> data_fd ev \<notin> open_fds s'
           \<and> interest s' (data_fd ev) = None
           \<and> wire s' = wire s \<and> wr_script s' = wr_script s \<and> pending s' = pending s"
proof -
  let ?fd = "data_fd ev"
  let ?s1 = "s\<lparr>rd_script := (rd_script s)(?fd := REof # rest)\<rparr>"
  have "handle_event s ev = read_loop s ?fd []"
    using assms(1-3) by (simp add: handle_event_def)
  also have "\<dots> = read_loop ?s1 ?fd ([] @ concat chunks)"
    using assms(4-7) by (intro read_loop_chunks) auto
  also have "\<dots> = Ret (sys_close ?s1 ?fd)"
  proof (rule read_loop_eof)
    show "sys_read ?s1 ?fd (BUFFER_SIZE - length ([] @ concat chunks)) = Some (0, [], ?s1)"
      using assms(4) by (simp add: sys_read_def)
  qed
  finally show ?thesis
    using assms(4) by (simp add: sys_close_def)
qed


theorem zero_length_read_closes_without_echo_witness:
  "data_fd \<lparr>events = EPOLLIN, data_fd = 5\<rparr> \<noteq> listen_fd hup5
   \<and> events \<lparr>events = EPOLLIN, data_fd = 5\<rparr> AND (EPOLLRDHUP OR EPOLLHUP) = 0
   \<and> events \<lparr>events = EPOLLIN, data_fd = 5\<rparr> AND EPOLLIN \<noteq> 0
   \<and> 5 \<in> open_fds hup5
   \<and> rd_script hup5 5 = map RData [[1, 2, 3]] @ REof # []
   \<and> [1, 2, 3 :: byte] \<noteq> []
   \<and> length (concat [[1, 2, 3 :: byte]]) < BUFFER_SIZE
   \<and> (\<exists>s'. handle_event hup5 \<lparr>events = EPOLLIN, data_fd = 5\<rparr> = Ret s'
          \<and> 5 \<notin> open_fds s' \<and> interest s' 5 = None
          \<and> wire s' = wire hup5 \<and> wr_script s' = wr_script hup5
          \<and> pending s' = pending hup5)"
proof -
  let ?ev = "\<lparr>events = EPOLLIN, data_fd = 5\<rparr>"
  have h1: "data_fd ?ev \<noteq> listen_fd hup5"
    and h2: "events ?ev AND (EPOLLRDHUP OR EPOLLHUP) = 0"
    and h3: "events ?ev AND EPOLLIN \<noteq> 0"
    and h4: "data_fd ?ev \<in> open_fds hup5"
    and h5: "rd_script hup5 (data_fd ?ev) = map RData [[1, 2, 3]] @ REof # []"
    and h6: "\<forall>c\<in>set [[1, 2, 3 :: byte]]. c \<noteq> []"
    and h7: "length (concat [[1, 2, 3 :: byte]]) < BUFFER_SIZE"
    by (simp_all add: hup5_def example_defs header_defs)
  from zero_length_read_closes_without_echo [OF h1 h2 h3 h4 h5 h6 h7] h1 h2 h3 h4 h5 h6 h7
  show ?thesis by simp
qed

subsection \<open>The accept loop\<close>

lemma nonblock_or: "((f::int) OR O_NONBLOCK) AND O_NONBLOCK \<noteq> 0"
proof -
  have "(f OR O_NONBLOCK) AND O_NONBLOCK = O_NONBLOCK"
    by (rule bit_eqI) (auto simp: bit_simps)
  then show ?thesis by (simp add: O_NONBLOCK_def)
qed

lemma accept_one:
  assumes "listen_fd s \<in> open_fds s" and "epoll_fd s \<in> open_fds s"
    and "backlog s = AccFd c # rest" and "fresh s c"
  shows "accept_loop s = accept_loop (accepted s c rest)"
proof -
  let ?s1 = "s\<lparr>backlog := rest, open_fds := insert c (open_fds s), fl := (fl s)(c := O_RDWR)\<rparr>"
  let ?s2 = "?s1\<lparr>fl := (fl ?s1)(c := fl ?s1 c OR O_NONBLOCK)\<rparr>"
  have a: "sys_accept s (listen_fd s) = Some (c, ?s1)"
    using assms(1,3) by (simp add: sys_accept_def)
  have pos: "0 < c" using assms(4) by (simp add: fresh_def)
  have nb: "set_nonblocking ?s1 c = Ret ?s2"
    using assms(4) by (intro set_nonblocking_succeeds) (simp_all add: fresh_def O_RDWR_def)
  have "accept_register ?s2 c = accepted s c rest"
    using assms(2,4) by (simp add: accept_register_def accepted_def epoll_ctl_def fresh_def Let_def)
  with accept_loop_step [OF a pos nb] show ?thesis by simp
qed

lemma accept_loop_drain:
  assumes "listen_fd s \<in> open_fds s" and "epoll_fd s \<in> open_fds s"
    and "backlog s = map AccFd cs" and "distinct cs" and "\<forall>c\<in>set cs. fresh s c"
  shows "\<exists>s'. (accept_loop s = Ret (- 1, s') \<and> errno s' = EAGAIN \<and> nonblocking s (listen_fd s)
                \<or> accept_loop s = Block SysAccept s' \<and> \<not> nonblocking s (listen_fd s))
           \<and> backlog s' = [] \<and> (\<forall>c\<in>set cs. registered s' c)
           \<and> (\<forall>c. c \<notin> set cs \<longrightarrow> interest s' c = interest s c \<and> fl s' c = fl s c
                      \<and> (c \<in> open_fds s') = (c \<in> open_fds s))"
  using assms
proof (induction cs arbitrary: s)
  case Nil
  show ?case
  proof (cases "nonblocking s (listen_fd s)")
    case True
    with Nil.prems have "sys_accept s (listen_fd s) = Some (- 1, s\<lparr>errno := EAGAIN\<rparr>)"
      by (simp add: sys_accept_def)
    from accept_loop_stop [OF this] Nil.prems True show ?thesis by simp
  next
    case False
    with Nil.prems have "sys_accept s (listen_fd s) = None"
      by (simp add: sys_accept_def)
    from accept_loop_blocked [OF this] Nil.prems False show ?thesis by simp
  qed
next
  case (Cons c cs)
  let ?s1 = "accepted s c (map AccFd cs)"
  have one: "accept_loop s = accept_loop ?s1"
    using Cons.prems by (intro accept_one) auto
  have fr: "\<forall>c'\<in>set cs. fresh ?s1 c'"
    using Cons.prems by (auto simp: fresh_def accepted_def)
  have "\<exists>s'. (accept_loop ?s1 = Ret (- 1, s') \<and> errno s' = EAGAIN \<and> nonblocking ?s1 (listen_fd ?s1)
                \<or> accept_loop ?s1 = Block SysAccept s' \<and> \<not> nonblocking ?s1 (listen_fd ?s1))
           \<and> backlog s' = [] \<and> (\<forall>c\<in>set cs. registered s' c)
           \<and> (\<forall>c. c \<notin> set cs \<longrightarrow> interest s' c = interest ?s1 c \<and> fl s' c = fl ?s1 c
                      \<and> (c \<in> open_fds s') = (c \<in> open_fds ?s1))"
    using Cons.prems fr by (intro Cons.IH) (auto simp: accepted_def)
  then obtain s' where
    res: "accept_loop ?s1 = Ret (- 1, s') \<and> errno s' = EAGAIN \<and> nonblocking ?s1 (listen_fd ?s1)
                \<or> accept_loop ?s1 = Block SysAccept s' \<and> \<not> nonblocking ?s1 (listen_fd ?s1)"
    and bl: "backlog s' = []" and reg: "\<forall>c\<in>set cs. registered s' c"
    and frame: "\<forall>x. x \<notin> set cs \<longrightarrow> interest s' x = interest ?s1 x \<and> fl s' x = fl ?s1 x
                      \<and> (x \<in> open_fds s') = (x \<in> open_fds ?s1)"
    by blast
  have "listen_fd s \<noteq> c" using Cons.prems by (auto simp: fresh_def)
  then have mode: "nonblocking ?s1 (listen_fd ?s1) = nonblocking s (listen_fd s)"
    by (simp add: accepted_def nonblocking_def)
  have "c \<notin> set cs" using Cons.prems by simp
  with frame have "registered s' c"
    by (simp add: registered_def accepted_def nonblocking_def nonblock_or)
  moreover have "\<forall>x. x \<notin> set (c # cs) \<longrightarrow> interest s' x = interest s x \<and> fl s' x = fl s x
                      \<and> (x \<in> open_fds s') = (x \<in> open_fds s)"
    using frame by (simp add: accepted_def)
  ultimately show ?case
    using one res bl reg mode by auto
qed


text \<open>What the accept branch does with a queue of \<open>N\<close> connections and no failure:
  \<open>cs\<close> are the descriptors the pending connections get, distinct and \<open>fresh\<close>, that is
  positive, unused, and with no \<open>fcntl\<close> or \<open>epoll_ctl\<close> failure set for them. All of them
  end up \<open>registered\<close> and the backlog is empty. What follows depends on the mode of the
  listening socket: in non-blocking mode \<open>accept\<close> reports would-block and the branch
  returns; in blocking mode the process then waits inside \<open>accept\<close>.\<close>

lemma accept_branch_registers_pending:
  assumes "data_fd ev = listen_fd s" and "listen_fd s \<in> open_fds s" and "epoll_fd s \<in> open_fds s"
    and "backlog s = map AccFd cs" and "distinct cs" and "\<forall>c\<in>set cs. fresh s c"
  shows "\<exists>s'. (handle_event s ev = Ret s' \<and> nonblocking s (listen_fd s)
                \<or> handle_event s ev = Block SysAccept s' \<and> \<not> nonblocking s (listen_fd s))
           \<and> backlog s' = [] \<and> (\<forall>c\<in>set cs. registered s' c)"
proof -
  from accept_loop_drain [OF assms(2-6)] obtain s' where
    res: "accept_loop s = Ret (- 1, s') \<and> errno s' = EAGAIN \<and> nonblocking s (listen_fd s)
           \<or> accept_loop s = Block SysAccept s' \<and> \<not> nonblocking s (listen_fd s)"
    and rest: "backlog s' = []" "\<forall>c\<in>set cs. registered s' c"
    by blast
  from res have "handle_event s ev = Ret s' \<and> nonblocking s (listen_fd s)
                \<or> handle_event s ev = Block SysAccept s' \<and> \<not> nonblocking s (listen_fd s)"
    using assms(1) by (auto simp: handle_event_def accept_branch_def)
  with rest show ?thesis by blast
qed

text \<open>The listening socket of the program is in blocking mode: \<open>main\<close> creates it with
  \<open>socket(AF_INET, SOCK_STREAM, 0)\<close> and calls \<open>set_nonblocking\<close> for accepted
  connections only.\<close>

lemma startup_listener_blocking:
  "startup s0 argc = Ret s \<Longrightarrow> \<not> nonblocking s (listen_fd s)"
  by (auto simp: startup_def Let_def sys_socket_def sys_epoll_create1_def epoll_ctl_def
        nonblocking_def O_RDWR_def O_NONBLOCK_def split: if_splits prod.splits option.splits)

text \<open>
  Claim C5. With \<open>N\<close> connection attempts pending when the event on the listening socket
  fires, the accept loop accepts until the no-more-pending signal, and when no resource
  limit is hit every one of the \<open>N\<close> connections is set non-blocking and registered with
  interest Readable and PeerClosed; none is dropped.

  The comment at the loop (line 124) says that it must call \<open>accept\<close> until \<open>EAGAIN\<close>.
  But \<open>main\<close> calls \<open>set_nonblocking\<close> for accepted connections only (line 134) and
  leaves the listening socket in blocking mode, so \<open>accept\<close> never reports would-block.
  With two connections pending the loop registers both, and the third \<open>accept\<close> does not
  return: the process stays in \<open>accept\<close> and handles no further event, whatever
  \<open>epoll_wait\<close> would have reported (\<open>ws\<close>). And the loop goes on only while \<open>accept\<close>
  returns a positive descriptor (line 125): when an \<open>accept\<close> fails, here with
  \<open>ECONNABORTED\<close> for a connection that was reset while it waited, the loop is left and
  \<open>main\<close> is back in \<open>epoll_wait\<close> with the connection behind it still in the queue,
  neither accepted nor registered.
\<close>

theorem accept_loop_gets_no_would_block:
  "main (init0\<lparr>backlog := [AccFd 5, AccFd 6]\<rparr>) 2
        (WaitOk [\<lparr>events = EPOLLIN, data_fd = 3\<rparr>] # ws) = Block SysAccept both56
   \<and> main (init0\<lparr>backlog := [AccFd 5, AccErr ECONNABORTED, AccFd 6]\<rparr>) 2
        [WaitOk [\<lparr>events = EPOLLIN, data_fd = 3\<rparr>]]
     = Block SysEpollWait (conn5\<lparr>backlog := [AccFd 6]\<rparr>)"
  by (auto simp: accept_loop.simps main_def startup_def handle_event_def accept_branch_def
      set_nonblocking_def Let_def example_defs header_defs sys_defs both56_def fun_eq_iff)

subsection \<open>What the two data branches do when nothing goes wrong\<close>

text \<open>Fewer than \<open>BUFFER_SIZE\<close> bytes, in any chunks, on a connection whose send queue
  takes them all: the Readable branch writes exactly these bytes, in order, and changes
  nothing else but errno.\<close>

lemma echo_below_buffer_size:
  assumes "data_fd ev \<noteq> listen_fd s" and "events ev AND (EPOLLRDHUP OR EPOLLHUP) = 0"
    and "events ev AND EPOLLIN \<noteq> 0"
    and "data_fd ev \<in> open_fds s" and "nonblocking s (data_fd ev)"
    and "rd_script s (data_fd ev) = map RData chunks" and "\<forall>c\<in>set chunks. c \<noteq> []"
    and "chunks \<noteq> []" and "length (concat chunks) < BUFFER_SIZE"
    and "wr_script s (data_fd ev) = WOk k # wrest" and "length (concat chunks) \<le> k"
  shows "handle_event s ev =
           Ret (s\<lparr>rd_script := (rd_script s)(data_fd ev := []), errno := EAGAIN,
                  wire := (wire s)(data_fd ev := wire s (data_fd ev) @ concat chunks),
                  wr_script := (wr_script s)(data_fd ev := wrest)\<rparr>)"
proof -
  let ?fd = "data_fd ev"
  let ?B = "concat chunks"
  let ?s1 = "s\<lparr>rd_script := (rd_script s)(?fd := [])\<rparr>"
  let ?s2 = "?s1\<lparr>errno := EAGAIN\<rparr>"
  let ?s3 = "?s2\<lparr>wire := (wire ?s2)(?fd := wire ?s2 ?fd @ take k ?B),
                  wr_script := (wr_script ?s2)(?fd := wrest)\<rparr>"
  have nonempty: "0 < length ?B"
    using assms(7,8) by (cases chunks) auto
  have "handle_event s ev = read_loop s ?fd []"
    using assms(1-3) by (simp add: handle_event_def)
  also have "\<dots> = read_loop ?s1 ?fd ([] @ ?B)"
    using assms(4,6,7,9) by (intro read_loop_chunks) auto
  also have "\<dots> = echo_loop ?s2 ?fd ?B 0"
  proof -
    have r: "sys_read ?s1 ?fd (BUFFER_SIZE - length ([] @ ?B)) = Some (- 1, [], ?s2)"
      using assms(4,5) by (simp add: sys_read_def nonblocking_def)
    have "read_loop ?s1 ?fd ([] @ ?B)
            = (if length ([] @ ?B) > 0 then echo_loop ?s2 ?fd ([] @ ?B) 0 else Ret ?s2)"
      by (rule read_loop_again [OF r]) simp_all
    with nonempty show ?thesis by simp
  qed
  also have "\<dots> = echo_loop ?s3 ?fd ?B (0 + nat (int (min k (length ?B))))"
  proof (rule echo_loop_step)
    show "0 < length ?B" by (rule nonempty)
    show "sys_write ?s2 ?fd (drop 0 ?B) = Returns (int (min k (length ?B)), ?s3)"
      using assms(4,10) nonempty by (auto simp: sys_write_def)
    show "int (min k (length ?B)) \<noteq> - 1" by simp
  qed
  also have "\<dots> = Ret ?s3"
    using assms(11) by (intro echo_loop_done) simp
  finally show ?thesis
    using assms(11) by simp
qed

text \<open>Pending data that the socket takes in one \<open>write\<close>: the Writable branch sends the
  bytes from the cursor on, frees the pending data and registers the connection for
  \<open>EPOLLIN | EPOLLET | EPOLLRDHUP\<close> again, with the \<open>data.fd\<close> that the variable \<open>event\<close>
  holds from its last use (line 261 sets \<open>event.events\<close> only).\<close>

lemma writable_completes:
  assumes "data_fd ev \<noteq> listen_fd s" and "events ev AND (EPOLLRDHUP OR EPOLLHUP) = 0"
    and "events ev AND EPOLLIN = 0" and "events ev AND EPOLLOUT \<noteq> 0"
    and "data_fd ev \<in> open_fds s" and "epoll_fd s \<in> open_fds s" and "data_fd ev \<notin> ctl_fail s"
    and "interest s (data_fd ev) = Some old"
    and "pending s (data_fd ev) = Some pd" and "total_len pd = length (buf pd)"
    and "sent_len pd < total_len pd"
    and "wr_script s (data_fd ev) = WOk k # wrest" and "total_len pd - sent_len pd \<le> k"
  shows "handle_event s ev =
           Ret (s\<lparr>wire := (wire s)(data_fd ev := wire s (data_fd ev) @ drop (sent_len pd) (buf pd)),
                  wr_script := (wr_script s)(data_fd ev := wrest),
                  pending := (pending s)(data_fd ev := None),
                  event := (event s)\<lparr>events := EPOLLIN OR EPOLLET OR EPOLLRDHUP\<rparr>,
                  interest := (interest s)(data_fd ev \<mapsto>
                     (event s)\<lparr>events := EPOLLIN OR EPOLLET OR EPOLLRDHUP\<rparr>)\<rparr>)"
  using assms
  by (simp add: handle_event_def handle_writable_def get_pending_data_def sys_write_def
      free_pending_data_def epoll_ctl_def Let_def min_def)

end
